theory Spec2Isabelle
  imports Main "HOL-Library.AList" "HOL-Library.Sublist" "HOL-Library.Word"
begin

section \<open>Malmo's MissionRecord: closing a recording session\<close>

text \<open>
  A shallow embedding of \<^verbatim>\<open>Malmo/src/MissionRecord.cpp\<close>. A \<^verbatim>\<open>MissionRecord\<close> owns a
  \<^verbatim>\<open>MissionRecordSpec\<close>; \<^verbatim>\<open>close()\<close> collects the files below the temporary directory,
  puts them into a tar archive, writes the gzipped archive to the destination and removes
  the temporary directory. The destructor closes a record that is still open and swallows
  every exception; moving a record hands its spec over and leaves the source with a
  default spec.

  The C++ code works on the process's file system and on \<^verbatim>\<open>std::cout\<close>, and it throws.
  The embedding makes all three explicit: every operation takes the \<open>world\<close> (the file
  system and the lines printed so far) and returns the new one, and an exception is a value
  of type \<open>exn\<close> next to the state in which it left the method.
\<close>

subsection \<open>Exceptions\<close>

text \<open>
  The exceptions the code meets. The first three derive from \<^verbatim>\<open>std::exception\<close> and carry
  their \<^verbatim>\<open>what()\<close> text; \<open>unknown_exception\<close> stands for anything else a callee may throw,
  which only \<^verbatim>\<open>catch (...)\<close> stops.
\<close>

datatype exn =
    runtime_error string
  | out_of_range string
  | filesystem_error string
  | unknown_exception

fun is_std_exception :: "exn \<Rightarrow> bool" where
  "is_std_exception unknown_exception = False"
| "is_std_exception e = True"

fun what :: "exn \<Rightarrow> string" where
  "what (runtime_error s) = s"
| "what (out_of_range s) = s"
| "what (filesystem_error s) = s"
| "what unknown_exception = []"

subsection \<open>Paths\<close>

text \<open>
  A \<^verbatim>\<open>boost::filesystem::path\<close> is modelled by the list of its elements, in the order in
  which the path iterates over them: \<^verbatim>\<open>./mission_records/u/video.mp4\<close> is
  \<open>[''.'', ''mission_records'', ''u'', ''video.mp4'']\<close>, and an absolute POSIX path starts
  with the element \<open>''/''\<close>. \<open>path_string\<close> is \<^verbatim>\<open>path::string()\<close>: the elements joined
  by \<^verbatim>\<open>operator/=\<close>, which puts a separator between two elements unless the left one ends
  with a separator already.
\<close>

type_synonym path = "string list"

definition path_append :: "string \<Rightarrow> string \<Rightarrow> string" where
  "path_append s e =
     (if e = [] then s
      else if s = [] \<or> last s = CHR ''/'' \<or> hd e = CHR ''/'' then s @ e
      else s @ ''/'' @ e)"

definition path_string :: "path \<Rightarrow> string" where
  "path_string p = foldl path_append [] p"

text \<open>\<^verbatim>\<open>path::relative_path()\<close>: the path without its root directory.\<close>

fun relative_path :: "path \<Rightarrow> path" where
  "relative_path [] = []"
| "relative_path (e # es) = (if e = ''/'' then es else e # es)"

text \<open>
  \<^verbatim>\<open>path::normalize()\<close>, the lexical normalisation of Boost.Filesystem version 3: an element
  \<^verbatim>\<open>.\<close> is dropped unless it is the first or the last one, and an element \<^verbatim>\<open>..\<close> cancels the name
  before it. \<open>cancellable\<close> is the library's test on that name. A path with no \<^verbatim>\<open>.\<close> after its
  first element and no \<^verbatim>\<open>..\<close> is left as it is.
\<close>

definition cancellable :: "string \<Rightarrow> bool" where
  "cancellable lf \<longleftrightarrow>
     lf \<noteq> [] \<and>
     (length lf \<noteq> 1 \<or> (lf ! 0 \<noteq> CHR ''.'' \<and> lf ! 0 \<noteq> CHR ''/'')) \<and>
     (length lf \<noteq> 2 \<or> (lf ! 0 \<noteq> CHR ''.'' \<and> lf ! 1 \<noteq> CHR ''.''))"

fun normalize_loop :: "path \<Rightarrow> bool \<Rightarrow> path \<Rightarrow> path" where
  "normalize_loop temp start [] = temp"
| "normalize_loop temp start (e # rest) =
     (if e = ''.'' \<and> \<not> start \<and> rest \<noteq> [] then normalize_loop temp False rest
      else if temp \<noteq> [] \<and> e = ''..'' \<and> cancellable (last temp) then
        normalize_loop
          (if butlast temp = [] \<and> rest = [''.''] then [''.''] else butlast temp) False rest
      else normalize_loop (temp @ [e]) False rest)"

definition normalize_path :: "path \<Rightarrow> path" where
  "normalize_path p =
     (if p = [] then []
      else (let temp = normalize_loop [] True p in if temp = [] then [''.''] else temp))"

subsection \<open>The file system\<close>

text \<open>
  A file holds either plain bytes or a gzipped tar archive, kept as the list of its entries
  (name and content) in the order in which they were put.
\<close>

datatype content = Raw string | TarGz "(string \<times> content) list"

type_synonym tar = "(string \<times> content) list"

text \<open>
  The file system is a tree. \<open>File r b\<close> is a regular file with content \<open>b\<close> that can be
  opened for reading iff \<open>r\<close>. \<open>Dir r w cs\<close> is a directory that lists its entries \<open>cs\<close> by
  name; it can be opened for listing iff \<open>r\<close>, and entries can be created in it and removed
  from it iff \<open>w\<close>. \<open>Gone\<close> is an entry that a directory still reports while it is no
  longer there: its status is "not found".

  A path is resolved by name from the root of the tree, element by element, so the first
  element of a path names an entry of the root (\<open>''.''\<close> for the working directory of a
  relative path such as \<^verbatim>\<open>./mission_records/u\<close>). Names have no further meaning in the tree:
  there are no parent links and no links to directories. The empty path names nothing. The
  tree changes only by what the program does to it.
\<close>

datatype node = File bool content | Dir bool bool "(string \<times> node) list" | Gone

text \<open>An ordinary directory, which can be listed and written.\<close>

abbreviation Folder :: "(string \<times> node) list \<Rightarrow> node" where
  "Folder cs \<equiv> Dir True True cs"

fun lookup_node :: "node \<Rightarrow> path \<Rightarrow> node option" where
  "lookup_node n [] = Some n"
| "lookup_node n (e # es) =
     (case n of
        Dir r w cs \<Rightarrow> (case map_of cs e of None \<Rightarrow> None | Some c \<Rightarrow> lookup_node c es)
      | _ \<Rightarrow> None)"

definition status :: "node \<Rightarrow> path \<Rightarrow> node option" where
  "status fsys p = (if p = [] then None else lookup_node fsys p)"

text \<open>\<^verbatim>\<open>boost::filesystem::exists\<close> and \<^verbatim>\<open>is_directory\<close>.\<close>

definition exists :: "node \<Rightarrow> path \<Rightarrow> bool" where
  "exists fsys p =
     (case status fsys p of None \<Rightarrow> False | Some Gone \<Rightarrow> False | Some _ \<Rightarrow> True)"

definition is_directory :: "node \<Rightarrow> path \<Rightarrow> bool" where
  "is_directory fsys p = (case status fsys p of Some (Dir r w cs) \<Rightarrow> True | _ \<Rightarrow> False)"

text \<open>
  \<^verbatim>\<open>directory_iterator(directory)\<close>: the entries of a directory, each as
  \<^verbatim>\<open>directory / name\<close>. Constructing the iterator throws a \<^verbatim>\<open>filesystem_error\<close> on anything
  but a directory and on a directory that cannot be opened for listing.
\<close>

definition iterator_error :: "path \<Rightarrow> exn" where
  "iterator_error directory =
     filesystem_error
       (''boost::filesystem::directory_iterator::construct: '' @ path_string directory)"

definition directory_iterator :: "node \<Rightarrow> path \<Rightarrow> exn + path list" where
  "directory_iterator fsys directory =
     (case status fsys directory of
        Some (Dir r w cs) \<Rightarrow>
          (if r then Inr (map (\<lambda>nc. directory @ [fst nc]) cs)
           else Inl (iterator_error directory))
      | _ \<Rightarrow> Inl (iterator_error directory))"

text \<open>
  \<^verbatim>\<open>boost::filesystem::remove_all(path)\<close>, the overload that throws. It removes what the
  path names with everything below it, entry by entry in directory order, and throws a
  \<^verbatim>\<open>filesystem_error\<close> at the first thing it cannot remove; what it has removed by then
  stays removed. \<open>remove_tree pw p n\<close> removes the node \<open>n\<close> found at path \<open>p\<close> in a
  directory whose entries can be removed iff \<open>pw\<close>: the result is \<open>None\<close> when the node is
  gone, and the exception with what is left of the node otherwise. A directory is listed
  first, so it must be open for listing; its entries are removed; then the directory itself
  is removed, which fails on a path that ends in \<^verbatim>\<open>.\<close> or \<^verbatim>\<open>..\<close>. An entry that is no longer
  there needs no removal.
\<close>

definition remove_error :: "path \<Rightarrow> exn" where
  "remove_error p = filesystem_error (''boost::filesystem::remove: '' @ path_string p)"

fun remove_tree :: "bool \<Rightarrow> path \<Rightarrow> node \<Rightarrow> (exn \<times> node) option"
  and remove_entries ::
    "bool \<Rightarrow> path \<Rightarrow> (string \<times> node) list \<Rightarrow> (exn \<times> (string \<times> node) list) option" where
  "remove_tree pw p (File r b) = (if pw then None else Some (remove_error p, File r b))"
| "remove_tree pw p Gone = None"
| "remove_tree pw p (Dir r w cs) =
     (if \<not> r then Some (iterator_error p, Dir r w cs)
      else
        (case remove_entries w p cs of
           Some (e, cs') \<Rightarrow> Some (e, Dir r w cs')
         | None \<Rightarrow>
             (if pw \<and> last p \<noteq> ''.'' \<and> last p \<noteq> ''..'' then None
              else Some (remove_error p, Dir r w []))))"
| "remove_entries w p [] = None"
| "remove_entries w p (kc # cs) =
     (case remove_tree w (p @ [fst kc]) (snd kc) of
        Some (e, c') \<Rightarrow> Some (e, (fst kc, c') # cs)
      | None \<Rightarrow> remove_entries w p cs)"

text \<open>
  \<open>remove_at p n es\<close> walks from the node \<open>n\<close> along the elements \<open>es\<close> that are left of
  the path \<open>p\<close> and removes what the last element names. Nothing happens, and nothing is
  thrown, when the path names nothing.
\<close>

fun remove_at :: "path \<Rightarrow> node \<Rightarrow> path \<Rightarrow> exn option \<times> node" where
  "remove_at p n [] = (None, n)"
| "remove_at p n (e # es) =
     (case n of
        Dir r w cs \<Rightarrow>
          (case map_of cs e of
             None \<Rightarrow> (None, n)
           | Some c \<Rightarrow>
               (if es = [] then
                  (case remove_tree w p c of
                     None \<Rightarrow> (None, Dir r w (filter (\<lambda>nc. fst nc \<noteq> e) cs))
                   | Some (x, c') \<Rightarrow> (Some x, Dir r w (AList.update e c' cs)))
                else
                  (case remove_at p c es of
                     (x, c') \<Rightarrow> (x, Dir r w (AList.update e c' cs)))))
      | _ \<Rightarrow> (None, n))"

definition remove_all :: "node \<Rightarrow> path \<Rightarrow> exn option \<times> node" where
  "remove_all fsys p = remove_at p fsys p"

text \<open>
  \<^verbatim>\<open>std::ofstream file(destination, std::ofstream::binary)\<close>: the open succeeds when the
  parent of the path is a directory and the path names a regular file, which is truncated,
  or names nothing in a directory in which entries can be created. \<open>can_open\<close> is
  \<^verbatim>\<open>!file.fail()\<close>, \<open>write_file\<close> is the file system once the stream has been written and
  closed.
\<close>

definition can_open :: "node \<Rightarrow> path \<Rightarrow> bool" where
  "can_open fsys p \<longleftrightarrow>
     p \<noteq> [] \<and>
     (case lookup_node fsys (butlast p) of
        Some (Dir r w cs) \<Rightarrow>
          (case map_of cs (last p) of
             Some (Dir r' w' ds) \<Rightarrow> False
           | Some (File r' b) \<Rightarrow> True
           | _ \<Rightarrow> w)
      | _ \<Rightarrow> False)"

fun put_node :: "node \<Rightarrow> path \<Rightarrow> node \<Rightarrow> node" where
  "put_node n [] new = new"
| "put_node n (e # es) new =
     (case n of
        Dir r w cs \<Rightarrow>
          (case map_of cs e of
             None \<Rightarrow> (if es = [] then Dir r w (cs @ [(e, new)]) else n)
           | Some c \<Rightarrow> Dir r w (AList.update e (put_node c es new) cs))
      | _ \<Rightarrow> n)"

definition write_file :: "node \<Rightarrow> path \<Rightarrow> content \<Rightarrow> node" where
  "write_file fsys p b = put_node fsys p (File True b)"

subsection \<open>The record and its spec\<close>

text \<open>
  Modelled from the spec: the class \<^verbatim>\<open>MissionRecordSpec\<close> is declared outside
  \<^verbatim>\<open>MissionRecord.cpp\<close>. Its fields are the ones the accessors of \<^verbatim>\<open>MissionRecord\<close> and
  \<^verbatim>\<open>close()\<close> read; the destination, a \<^verbatim>\<open>std::string\<close> in the code, is kept as a path.
\<close>

record MissionRecordSpec =
  is_recording :: bool
  is_recording_mp4 :: bool
  is_recording_observations :: bool
  is_recording_rewards :: bool
  is_recording_commands :: bool
  mp4_path :: string
  mp4_bit_rate :: "64 word"
  mp4_fps :: "32 word"
  observations_path :: string
  rewards_path :: string
  commands_path :: string
  mission_init_path :: string
  temp_dir :: path
  destination :: path

text \<open>
  Modelled from the spec: the default constructor \<^verbatim>\<open>MissionRecordSpec()\<close> is not in
  \<^verbatim>\<open>MissionRecord.cpp\<close>. The spec says that a default-constructed spec has
  \<open>isRecording = false\<close>; the other fields are given empty values here and nothing below
  depends on them.
\<close>

definition default_MissionRecordSpec :: MissionRecordSpec where
  "default_MissionRecordSpec =
     \<lparr>is_recording = False, is_recording_mp4 = False, is_recording_observations = False,
      is_recording_rewards = False, is_recording_commands = False, mp4_path = [],
      mp4_bit_rate = 0, mp4_fps = 0, observations_path = [], rewards_path = [],
      commands_path = [], mission_init_path = [], temp_dir = [], destination = []\<rparr>"

record MissionRecord =
  is_closed :: bool
  spec :: MissionRecordSpec

record world =
  fs :: node
  cout :: "string list"

type_synonym 'a outcome = "exn option \<times> 'a \<times> world"

subsection \<open>addFiles\<close>

text \<open>
  \<^verbatim>\<open>MissionRecord::addFiles\<close> appends to \<open>fileList\<close> and calls itself on every entry that
  is a directory. \<open>addFiles_loop\<close> is its \<^verbatim>\<open>while\<close> loop over the entries the iterator has
  left.
\<close>

definition missing_directory_error :: "path \<Rightarrow> exn" where
  "missing_directory_error directory =
     runtime_error (''Attempt to write to non-existent directory: '' @ path_string directory)"

function addFiles :: "node \<Rightarrow> path list \<Rightarrow> path \<Rightarrow> exn + path list"
  and addFiles_loop :: "node \<Rightarrow> path list \<Rightarrow> path list \<Rightarrow> exn + path list" where
  "addFiles fsys fileList directory =
     (if \<not> exists fsys directory then Inl (missing_directory_error directory)
      else
        (case directory_iterator fsys directory of
           Inl e \<Rightarrow> Inl e
         | Inr dirIter \<Rightarrow> addFiles_loop fsys fileList dirIter))"
| "addFiles_loop fsys fileList [] = Inr fileList"
| "addFiles_loop fsys fileList (entry # dirIter) =
     (if exists fsys entry then
        (if is_directory fsys entry then
           (case addFiles fsys fileList entry of
              Inl e \<Rightarrow> Inl e
            | Inr fileList' \<Rightarrow> addFiles_loop fsys fileList' dirIter)
         else addFiles_loop fsys (fileList @ [entry]) dirIter)
      else addFiles_loop fsys fileList dirIter)"
  by pat_completeness auto

text \<open>
  The recursion ends because the file system is a finite tree: a call on a directory is
  followed only by calls on its entries, which are smaller nodes. \<open>node_size_at\<close> is the
  measure used in the termination proof.
\<close>

definition node_size_at :: "node \<Rightarrow> path \<Rightarrow> nat" where
  "node_size_at fsys p = (case lookup_node fsys p of None \<Rightarrow> 0 | Some n \<Rightarrow> size n)"

subsection \<open>addFile and the archive\<close>

text \<open>
  Modelled from the spec: \<^verbatim>\<open>lindenb::io::Tar::putFile\<close> is not in \<^verbatim>\<open>MissionRecord.cpp\<close>.
  The spec says that it appends the file's bytes to the archive under the entry name and
  that adding a file fails when the file cannot be read. Here it fails, with an exception
  derived from \<^verbatim>\<open>std::exception\<close> and the archive left as it was, exactly when the path does
  not name a readable regular file; the size and name limits of the tar format are not
  modelled.
\<close>

definition putFile :: "node \<Rightarrow> tar \<Rightarrow> path \<Rightarrow> string \<Rightarrow> exn + tar" where
  "putFile fsys archive filename nameInArchive =
     (case status fsys filename of
        Some (File True b) \<Rightarrow> Inr (archive @ [(nameInArchive, b)])
      | _ \<Rightarrow> Inl (runtime_error (''Cannot open '' @ path_string filename)))"

text \<open>
  \<^verbatim>\<open>MissionRecord::addFile\<close>. \<open>file_name_in_archive\<close> is the name the code computes:
  the normalised relative path as a string, every backslash replaced by a slash, without
  its first two characters. \<^verbatim>\<open>substr(2, size)\<close> throws \<^verbatim>\<open>std::out_of_range\<close> on a string
  shorter than two characters.
\<close>

definition replace_backslash :: "string \<Rightarrow> string" where
  "replace_backslash s = map (\<lambda>c. if c = CHR 0x5C then CHR ''/'' else c) s"

definition normalized_name :: "path \<Rightarrow> string" where
  "normalized_name p = replace_backslash (path_string (normalize_path (relative_path p)))"

definition file_name_in_archive :: "path \<Rightarrow> string" where
  "file_name_in_archive p = drop 2 (normalized_name p)"

definition addFile :: "node \<Rightarrow> tar \<Rightarrow> path \<Rightarrow> exn + tar" where
  "addFile fsys archive p =
     (if length (normalized_name p) < 2 then Inl (out_of_range ''basic_string::substr'')
      else putFile fsys archive p (file_name_in_archive p))"

subsection \<open>close\<close>

text \<open>
  The \<^verbatim>\<open>for\<close> loop of \<^verbatim>\<open>close()\<close>: each file is added inside a \<^verbatim>\<open>try\<close> whose handler
  catches \<^verbatim>\<open>std::exception\<close> and prints a warning; any other exception leaves the loop.
  The result is the exception that left the loop, if any, the archive and the lines printed.
\<close>

definition archive_warning :: "path \<Rightarrow> exn \<Rightarrow> string" where
  "archive_warning file e =
     ''[warning] Unable to archive '' @ path_string file @ '': '' @ what e"

fun archive_loop ::
  "node \<Rightarrow> tar \<Rightarrow> string list \<Rightarrow> path list \<Rightarrow> exn option \<times> tar \<times> string list" where
  "archive_loop fsys tarball out [] = (None, tarball, out)"
| "archive_loop fsys tarball out (file # fileList) =
     (case addFile fsys tarball file of
        Inr tarball' \<Rightarrow> archive_loop fsys tarball' out fileList
      | Inl e \<Rightarrow>
          (if is_std_exception e
           then archive_loop fsys tarball (out @ [archive_warning file e]) fileList
           else (Some e, tarball, out)))"

definition destination_warning :: "path \<Rightarrow> string" where
  "destination_warning dest =
     ''[warning] Unable to write recording to output file '' @ path_string dest"

text \<open>
  The block under \<^verbatim>\<open>if (fileList.size() > 0)\<close>: build the archive, finish it, open the
  destination, and either print the warning or copy the gzipped archive into the file.
\<close>

definition write_recording :: "MissionRecord \<Rightarrow> world \<Rightarrow> path list \<Rightarrow> exn option \<times> world" where
  "write_recording this w fileList =
     (case archive_loop (fs w) [] (cout w) fileList of
        (Some e, tarball, out) \<Rightarrow> (Some e, w\<lparr>cout := out\<rparr>)
      | (None, tarball, out) \<Rightarrow>
          (if \<not> can_open (fs w) (destination (spec this))
           then (None, w\<lparr>cout := out @ [destination_warning (destination (spec this))]\<rparr>)
           else (None, w\<lparr>fs := write_file (fs w) (destination (spec this)) (TarGz tarball),
                          cout := out\<rparr>)))"

text \<open>
  \<^verbatim>\<open>MissionRecord::close\<close>. An exception leaves the method at once, with the record and the
  world as they are at that point: when \<^verbatim>\<open>remove_all\<close> throws, the archive has been written,
  the warnings have been printed, part of the temporary directory may be gone, and
  \<^verbatim>\<open>is_closed\<close> is still false.
\<close>

definition close :: "MissionRecord \<Rightarrow> world \<Rightarrow> MissionRecord outcome" where
  "close this w =
     (if \<not> is_recording (spec this) \<or> is_closed this then (None, this, w)
      else
        (case addFiles (fs w) [] (temp_dir (spec this)) of
           Inl e \<Rightarrow> (Some e, this, w)
         | Inr fileList \<Rightarrow>
             (case (if length fileList > 0 then write_recording this w fileList
                    else (None, w)) of
                (Some e, w') \<Rightarrow> (Some e, this, w')
              | (None, w') \<Rightarrow>
                  (case remove_all (fs w') (temp_dir (spec this)) of
                     (Some e, fsys') \<Rightarrow> (Some e, this, w'\<lparr>fs := fsys'\<rparr>)
                   | (None, fsys') \<Rightarrow>
                       (None, this\<lparr>is_closed := True\<rparr>, w'\<lparr>fs := fsys'\<rparr>)))))"

subsection \<open>Constructor, destructor and moves\<close>

text \<open>
  \<^verbatim>\<open>boost::filesystem::create_directories\<close>: creates the directory and every missing
  parent; throws when an element of the path names something that is not a directory or
  when a directory would have to be created where no entry can be created.
\<close>

fun make_dirs :: "node \<Rightarrow> path \<Rightarrow> node option" where
  "make_dirs n [] = (case n of Dir r w cs \<Rightarrow> Some n | _ \<Rightarrow> None)"
| "make_dirs n (e # es) =
     (case n of
        Dir r w cs \<Rightarrow>
          (case map_of cs e of
             None \<Rightarrow>
               (if w then
                  (case make_dirs (Folder []) es of
                     None \<Rightarrow> None
                   | Some c \<Rightarrow> Some (Dir r w (cs @ [(e, c)])))
                else None)
           | Some c \<Rightarrow>
               (case make_dirs c es of
                  None \<Rightarrow> None
                | Some c' \<Rightarrow> Some (Dir r w (AList.update e c' cs))))
      | _ \<Rightarrow> None)"

definition create_directories :: "node \<Rightarrow> path \<Rightarrow> exn + node" where
  "create_directories fsys p =
     (case (if p = [] then None else make_dirs fsys p) of
        None \<Rightarrow> Inl (filesystem_error
                      (''boost::filesystem::create_directories: '' @ path_string p))
      | Some fsys' \<Rightarrow> Inr fsys')"

text \<open>\<^verbatim>\<open>MissionRecord::MissionRecord(const MissionRecordSpec&)\<close>.\<close>

definition MissionRecord_new :: "MissionRecordSpec \<Rightarrow> world \<Rightarrow> exn + MissionRecord \<times> world" where
  "MissionRecord_new s w =
     (if is_recording s then
        (case create_directories (fs w) (temp_dir s) of
           Inl e \<Rightarrow> Inl e
         | Inr fsys' \<Rightarrow> Inr (\<lparr>is_closed = False, spec = s\<rparr>, w\<lparr>fs := fsys'\<rparr>))
      else Inr (\<lparr>is_closed = False, spec = s\<rparr>, w))"

text \<open>
  \<^verbatim>\<open>MissionRecord::~MissionRecord\<close>. \<open>destructor_catch\<close> is the pair of handlers: it takes
  the outcome of the \<^verbatim>\<open>try\<close> block and gives the outcome of the whole \<^verbatim>\<open>try\<close> statement.
\<close>

definition destructor_catch :: "MissionRecord outcome \<Rightarrow> MissionRecord outcome" where
  "destructor_catch r =
     (case r of
        (None, this, w) \<Rightarrow> (None, this, w)
      | (Some e, this, w) \<Rightarrow>
          (if is_std_exception e
           then (None, this,
                 w\<lparr>cout := cout w @ [''Exception in closing of MissionRecord: '' @ what e]\<rparr>)
           else (None, this,
                 w\<lparr>cout := cout w @ [''Unknown exception in closing of MissionRecord.'']\<rparr>)))"

definition destructor :: "MissionRecord \<Rightarrow> world \<Rightarrow> MissionRecord outcome" where
  "destructor this w =
     destructor_catch (if \<not> is_closed this then close this w else (None, this, w))"

text \<open>
  The move constructor and move assignment work on two objects that may be the same one,
  so the records live in a store, addressed by reference. \<open>this\<close> and \<open>record\<close> are the
  addresses of the two objects.
\<close>

type_synonym ref = nat
type_synonym store = "ref \<Rightarrow> MissionRecord"

definition move_construct :: "store \<Rightarrow> ref \<Rightarrow> ref \<Rightarrow> store" where
  "move_construct h this record =
     (let h1 = h(this := \<lparr>is_closed = is_closed (h record), spec = spec (h record)\<rparr>)
      in h1(record := (h1 record)\<lparr>spec := default_MissionRecordSpec\<rparr>))"

definition move_assign :: "store \<Rightarrow> ref \<Rightarrow> ref \<Rightarrow> store" where
  "move_assign h this record =
     (if this \<noteq> record then
        (let h1 = h(this := (h this)\<lparr>is_closed := is_closed (h record)\<rparr>);
             h2 = h1(this := (h1 this)\<lparr>spec := spec (h1 record)\<rparr>)
         in h2(record := (h2 record)\<lparr>spec := default_MissionRecordSpec\<rparr>))
      else h)"

text \<open>The accessors read the spec.\<close>

definition isRecording :: "MissionRecord \<Rightarrow> bool" where
  "isRecording this = is_recording (spec this)"

definition isRecordingMP4 :: "MissionRecord \<Rightarrow> bool" where
  "isRecordingMP4 this = is_recording_mp4 (spec this)"

definition isRecordingObservations :: "MissionRecord \<Rightarrow> bool" where
  "isRecordingObservations this = is_recording_observations (spec this)"

definition isRecordingRewards :: "MissionRecord \<Rightarrow> bool" where
  "isRecordingRewards this = is_recording_rewards (spec this)"

definition isRecordingCommands :: "MissionRecord \<Rightarrow> bool" where
  "isRecordingCommands this = is_recording_commands (spec this)"

definition getMP4Path :: "MissionRecord \<Rightarrow> string" where
  "getMP4Path this = mp4_path (spec this)"

definition getMP4BitRate :: "MissionRecord \<Rightarrow> 64 word" where
  "getMP4BitRate this = mp4_bit_rate (spec this)"

definition getMP4FramesPerSecond :: "MissionRecord \<Rightarrow> 32 word" where
  "getMP4FramesPerSecond this = mp4_fps (spec this)"

definition getObservationsPath :: "MissionRecord \<Rightarrow> string" where
  "getObservationsPath this = observations_path (spec this)"

definition getRewardsPath :: "MissionRecord \<Rightarrow> string" where
  "getRewardsPath this = rewards_path (spec this)"

definition getCommandsPath :: "MissionRecord \<Rightarrow> string" where
  "getCommandsPath this = commands_path (spec this)"

definition getMissionInitPath :: "MissionRecord \<Rightarrow> string" where
  "getMissionInitPath this = mission_init_path (spec this)"

subsection \<open>Notions used in the statements\<close>

text \<open>
  \<open>files_below p n\<close> lists the regular files of the tree \<open>n\<close>, found at path \<open>p\<close>, at every
  depth and in directory order. A tree is \<open>well_formed\<close> when every directory in it can be
  listed, lists no name twice and lists only ordinary names: not empty, not \<^verbatim>\<open>.\<close> or \<^verbatim>\<open>..\<close>,
  without a slash.
\<close>

fun files_below :: "path \<Rightarrow> node \<Rightarrow> path list" where
  "files_below p (File r b) = [p]"
| "files_below p Gone = []"
| "files_below p (Dir r w cs) = concat (map (\<lambda>nc. files_below (p @ [fst nc]) (snd nc)) cs)"



text \<open>
  \<open>addable fsys p\<close>: \<^verbatim>\<open>addFile\<close> on \<open>p\<close> does not throw. \<open>entry_of\<close> is the entry it then
  appends, \<open>add_error\<close> the exception it throws otherwise.
\<close>

definition addable :: "node \<Rightarrow> path \<Rightarrow> bool" where
  "addable fsys p = (case addFile fsys [] p of Inl e \<Rightarrow> False | Inr t \<Rightarrow> True)"

definition content_at :: "node \<Rightarrow> path \<Rightarrow> content" where
  "content_at fsys p = (case status fsys p of Some (File r b) \<Rightarrow> b | _ \<Rightarrow> Raw [])"

definition entry_of :: "node \<Rightarrow> path \<Rightarrow> string \<times> content" where
  "entry_of fsys p = (file_name_in_archive p, content_at fsys p)"

definition add_error :: "node \<Rightarrow> path \<Rightarrow> exn" where
  "add_error fsys p = (case addFile fsys [] p of Inl e \<Rightarrow> e | Inr t \<Rightarrow> unknown_exception)"

text \<open>The entries of the archive and the warnings printed for a list of files.\<close>

definition archive_entries :: "node \<Rightarrow> path list \<Rightarrow> tar" where
  "archive_entries fsys fl = map (entry_of fsys) (filter (addable fsys) fl)"

definition archive_warnings :: "node \<Rightarrow> path list \<Rightarrow> string list" where
  "archive_warnings fsys fl =
     map (\<lambda>p. archive_warning p (add_error fsys p)) (filter (\<lambda>p. \<not> addable fsys p) fl)"


text \<open>
  \<open>finish this w1\<close> is the end of \<^verbatim>\<open>close()\<close>, from \<^verbatim>\<open>remove_all\<close> on, in the world \<open>w1\<close>
  that the archive block has left.
\<close>

definition finish :: "MissionRecord \<Rightarrow> world \<Rightarrow> MissionRecord outcome" where
  "finish this w1 =
     (case remove_all (fs w1) (temp_dir (spec this)) of
        (Some e, fsys') \<Rightarrow> (Some e, this, w1\<lparr>fs := fsys'\<rparr>)
      | (None, fsys') \<Rightarrow> (None, this\<lparr>is_closed := True\<rparr>, w1\<lparr>fs := fsys'\<rparr>))"

subsection \<open>Example sessions\<close>

text \<open>
  A session as Malmo sets it up: the temporary directory \<^verbatim>\<open>./mission_records/u1\<close> holds
  \<^verbatim>\<open>logs/commands.txt\<close> and \<^verbatim>\<open>video/frame001.png\<close>, the destination is \<^verbatim>\<open>./out.tar.gz\<close>.
\<close>

definition spec_A :: MissionRecordSpec where
  "spec_A = default_MissionRecordSpec
     \<lparr>is_recording := True, temp_dir := [''.'', ''mission_records'', ''u1''],
      destination := [''.'', ''out.tar.gz'']\<rparr>"

definition record_A :: MissionRecord where
  "record_A = \<lparr>is_closed = False, spec = spec_A\<rparr>"

definition world_A :: world where
  "world_A =
     \<lparr>fs = Folder [(''.'', Folder [(''mission_records'', Folder [(''u1'',
             Folder [(''logs'', Folder [(''commands.txt'', File True (Raw ''move 1''))]),
                  (''video'', Folder [(''frame001.png'', File True (Raw ''PNG''))])])])])],
      cout = []\<rparr>"

text \<open>
  A session whose temporary directory \<^verbatim>\<open>rec\<close> holds a readable file, a file that cannot be
  read and an entry that has vanished. \<open>record_B\<close> writes to \<^verbatim>\<open>r.tgz\<close>; \<open>record_B'\<close> to
  \<^verbatim>\<open>out/r.tgz\<close>, which cannot be opened because there is no directory \<^verbatim>\<open>out\<close>.
\<close>

definition spec_B :: MissionRecordSpec where
  "spec_B = default_MissionRecordSpec
     \<lparr>is_recording := True, temp_dir := [''rec''], destination := [''r.tgz'']\<rparr>"

definition record_B :: MissionRecord where
  "record_B = \<lparr>is_closed = False, spec = spec_B\<rparr>"

definition record_B' :: MissionRecord where
  "record_B' = \<lparr>is_closed = False, spec = spec_B\<lparr>destination := [''out'', ''r.tgz'']\<rparr>\<rparr>"

definition world_B :: world where
  "world_B =
     \<lparr>fs = Folder [(''rec'', Folder [(''a.txt'', File True (Raw ''hello'')),
                              (''b.bin'', File False (Raw ''secret'')),
                              (''g'', Gone)])],
      cout = []\<rparr>"

text \<open>A world in which the only file below \<^verbatim>\<open>rec\<close> cannot be read.\<close>

definition world_C :: world where
  "world_C = \<lparr>fs = Folder [(''rec'', Folder [(''b.bin'', File False (Raw ''secret''))])], cout = []\<rparr>"

text \<open>
  A world in which \<^verbatim>\<open>rec\<close> is a regular file, one in which it is missing and one in which
  it is empty.
\<close>

definition world_D :: world where
  "world_D = \<lparr>fs = Folder [(''rec'', File True (Raw ''x''))], cout = []\<rparr>"

definition world_E :: world where
  "world_E = \<lparr>fs = Folder [(''other'', Folder [])], cout = []\<rparr>"

definition world_G :: world where
  "world_G = \<lparr>fs = Folder [(''rec'', Folder [])], cout = []\<rparr>"

text \<open>
  A world in which \<^verbatim>\<open>rec\<close> holds \<^verbatim>\<open>a.txt\<close> and a directory \<^verbatim>\<open>sub\<close> from which nothing can
  be removed (mode 555), with an unreadable file \<^verbatim>\<open>b.bin\<close> in it. In \<open>world_I\<close> the directory
  \<^verbatim>\<open>sub\<close> cannot be listed (mode 000).
\<close>

definition world_H :: world where
  "world_H =
     \<lparr>fs = Folder [(''rec'', Folder [(''a.txt'', File True (Raw ''hello'')),
                                 (''sub'', Dir True False [(''b.bin'', File False (Raw ''secret''))])])],
      cout = []\<rparr>"

definition world_I :: world where
  "world_I =
     \<lparr>fs = Folder [(''rec'', Folder [(''a.txt'', File True (Raw ''hello'')),
                                 (''sub'', Dir False True [(''x'', File True (Raw ''y''))])])],
      cout = []\<rparr>"

text \<open>
  A session whose temporary directory is the working directory \<^verbatim>\<open>.\<close> itself and whose
  destination is the empty string.
\<close>

definition record_J :: MissionRecord where
  "record_J = \<lparr>is_closed = False,
     spec = default_MissionRecordSpec\<lparr>is_recording := True, temp_dir := [''.'']\<rparr>\<rparr>"

definition world_J :: world where
  "world_J = \<lparr>fs = Folder [(''.'', Folder [(''a.txt'', File True (Raw ''hello''))])], cout = []\<rparr>"

text \<open>A store with \<open>record_A\<close> at address 0 and \<open>record_B\<close> at address 1.\<close>

definition store_AB :: store where
  "store_AB = (\<lambda>r. \<lparr>is_closed = True, spec = default_MissionRecordSpec\<rparr>)
     (0 := record_A, 1 := record_B)"

section \<open>Termination of addFiles\<close>

lemma size_child: "map_of cs e = Some c \<Longrightarrow> size c < size (Dir r w cs)"
proof -
  assume "map_of cs e = Some c"
  then have "(e, c) \<in> set cs" by (rule map_of_SomeD)
  then have "size c < Suc (size_list (size_prod (\<lambda>x. 0) size) cs)"
    by (induction cs) auto
  then show ?thesis by simp
qed

lemma lookup_node_append:
  "lookup_node n (p @ q) =
     (case lookup_node n p of None \<Rightarrow> None | Some m \<Rightarrow> lookup_node m q)"
  by (induction p arbitrary: n) (auto split: node.splits option.splits)

lemma foldr_max_le:
  "(\<And>e. e \<in> set es \<Longrightarrow> f e \<le> k) \<Longrightarrow> foldr max (map f es) (0::nat) \<le> k"
  by (induction es) auto

lemma node_size_at_entry:
  assumes "directory_iterator fsys d = Inr es" and "e \<in> set es"
  shows "node_size_at fsys e < node_size_at fsys d"
proof -
  from assms(1) obtain r w cs where st: "status fsys d = Some (Dir r w cs)"
    and es: "es = map (\<lambda>nc. d @ [fst nc]) cs"
    by (auto simp: directory_iterator_def split: option.splits node.splits if_splits)
  from st have lk: "lookup_node fsys d = Some (Dir r w cs)"
    by (auto simp: status_def split: if_splits)
  from es assms(2) obtain nc where "nc \<in> set cs" and e: "e = d @ [fst nc]" by auto
  show ?thesis
    using lk size_child[of cs "fst nc" _ r w]
    by (auto simp: node_size_at_def e lookup_node_append split: option.splits)
qed

termination addFiles
proof (relation "inv_image (less_than <*lex*> less_than)
    (\<lambda>x. case x of
       Inl (fsys, fl, d) \<Rightarrow> (node_size_at fsys d + 1, 0)
     | Inr (fsys, fl, es) \<Rightarrow>
         (foldr max (map (\<lambda>e. node_size_at fsys e + 1) es) 0, length es + 1))", goal_cases)
  case 1
  show ?case by (intro wf_inv_image wf_lex_prod wf_less_than)
next
  case (2 fsys fileList directory dirIter)
  have "foldr max (map (\<lambda>e. node_size_at fsys e + 1) dirIter) 0 \<le> node_size_at fsys directory"
    using node_size_at_entry[OF 2(2)] by (intro foldr_max_le) (simp add: Suc_leI)
  then show ?case by simp
next
  case 3
  then show ?case by auto
next
  case 4
  then show ?case by auto
next
  case 5
  then show ?case by auto
next
  case 6
  then show ?case by auto
qed

declare addFiles.simps [simp del]

section \<open>The file system operations\<close>

lemma map_of_filter_fst:
  "map_of (filter (\<lambda>nc. fst nc \<noteq> e) cs) k = (if k = e then None else map_of cs k)"
  by (induction cs) auto

lemma remove_at_below:
  "remove_at p n es = (None, n') \<Longrightarrow> es \<noteq> [] \<Longrightarrow> lookup_node n' (es @ q) = None"
proof (induction p n es arbitrary: n' rule: remove_at.induct)
  case (1 p n)
  then show ?case by simp
next
  case (2 p n e es)
  show ?case
  proof (cases n)
    case (Dir r w cs)
    show ?thesis
    proof (cases "map_of cs e")
      case None
      with 2(2) Dir show ?thesis by auto
    next
      case (Some c)
      show ?thesis
      proof (cases "es = []")
        case True
        with 2(2) Dir Some show ?thesis
          by (auto simp: map_of_filter_fst split: option.splits)
      next
        case False
        obtain x c' where r: "remove_at p c es = (x, c')" by (cases "remove_at p c es")
        with 2(2) Dir Some False have x: "x = None" and n': "n' = Dir r w (AList.update e c' cs)"
          by auto
        from 2(1)[OF Dir Some False r[unfolded x] False] n' show ?thesis
          by (simp add: update_conv')
      qed
    qed
  qed (use 2 in \<open>auto\<close>)
qed

lemma remove_at_file_frame:
  "lookup_node n q = Some (File r b) \<Longrightarrow> \<not> prefix es q \<Longrightarrow> remove_at p n es = (x, n') \<Longrightarrow>
   lookup_node n' q = Some (File r b)"
proof (induction p n es arbitrary: n' q x rule: remove_at.induct)
  case (1 p n)
  then show ?case by simp
next
  case (2 p n e es)
  show ?case
  proof (cases n)
    case (Dir dr dw cs)
    show ?thesis
    proof (cases q)
      case Nil
      with 2(2) Dir show ?thesis by simp
    next
      case (Cons k ks)
      show ?thesis
      proof (cases "map_of cs e")
        case None
        with 2 Dir show ?thesis by simp
      next
        case (Some c)
        show ?thesis
        proof (cases "k = e")
          case False
          with 2(2,4) Dir Cons Some show ?thesis
            by (auto simp: update_conv' map_of_filter_fst split: if_splits option.splits prod.splits)
        next
          case True
          with 2(3) Cons have ne: "es \<noteq> []" and np: "\<not> prefix es ks" by auto
          obtain y c' where r: "remove_at p c es = (y, c')" by (cases "remove_at p c es")
          from 2(2) Dir Cons Some True have lk: "lookup_node c ks = Some (File r b)" by simp
          from 2(1)[OF Dir Some ne lk np r] 2(4) Dir Cons Some True ne r show ?thesis
            by (auto simp: update_conv')
        qed
      qed
    qed
  qed (use 2 in \<open>auto\<close>)
qed

lemma remove_tree_filesystem_error:
  shows "remove_tree pw p n = Some (e, n') \<Longrightarrow> \<exists>s. e = filesystem_error s"
    and "remove_entries w p cs = Some (e, cs') \<Longrightarrow> \<exists>s. e = filesystem_error s"
  by (induction pw p n and w p cs arbitrary: n' and cs' rule: remove_tree_remove_entries.induct)
    (auto simp: remove_error_def iterator_error_def split: if_splits option.splits prod.splits)

lemma remove_at_filesystem_error:
  "remove_at p n es = (Some e, n') \<Longrightarrow> \<exists>s. e = filesystem_error s"
proof (induction p n es arbitrary: n' rule: remove_at.induct)
  case (1 p n)
  then show ?case by simp
next
  case (2 p n e' es)
  then show ?case
    by (auto split: node.splits option.splits if_splits prod.splits
        dest: remove_tree_filesystem_error(1))
qed

lemma can_open_Cons:
  "can_open n (e # es) \<longleftrightarrow>
     (case n of
        Dir r w cs \<Rightarrow>
          (if es = [] then
             (case map_of cs e of
                Some (Dir r' w' ds) \<Rightarrow> False | Some (File r' b) \<Rightarrow> True | _ \<Rightarrow> w)
           else (case map_of cs e of Some c \<Rightarrow> can_open c es | None \<Rightarrow> False))
      | _ \<Rightarrow> False)"
  by (cases n; cases es) (auto simp: can_open_def split: option.splits node.splits)

lemma lookup_put_node:
  "can_open n p \<Longrightarrow> lookup_node (put_node n p x) p = Some x"
proof (induction p arbitrary: n)
  case Nil
  then show ?case by (simp add: can_open_def)
next
  case (Cons e es)
  then show ?case
    by (cases n) (auto simp: can_open_Cons update_conv' split: option.splits if_splits)
qed

lemma remove_all_gone:
  assumes "remove_all fsys p = (None, fsys')" and "p \<noteq> []"
  shows "status fsys' (p @ q) = None \<and> \<not> exists fsys' (p @ q)"
  using remove_at_below[OF assms(1)[unfolded remove_all_def] assms(2), of q] assms(2)
  by (simp add: status_def exists_def)

lemma status_written:
  assumes "can_open fsys dest" and "\<not> prefix temp dest"
  shows "status (snd (remove_all (write_file fsys dest b) temp)) dest = Some (File True b)"
proof -
  from assms(1) have ne: "dest \<noteq> []" by (simp add: can_open_def)
  have lk: "lookup_node (write_file fsys dest b) dest = Some (File True b)"
    unfolding write_file_def by (rule lookup_put_node[OF assms(1)])
  obtain x n' where r: "remove_at temp (write_file fsys dest b) temp = (x, n')"
    by (cases "remove_at temp (write_file fsys dest b) temp")
  from remove_at_file_frame[OF lk assms(2) r] r ne show ?thesis
    by (simp add: status_def remove_all_def)
qed

section \<open>The archive loop\<close>

lemma addFile_std: "addFile fsys t p = Inl e \<Longrightarrow> is_std_exception e"
  by (auto simp: addFile_def putFile_def split: if_splits option.splits node.splits bool.splits)

lemma addFile_addable:
  "addable fsys p \<Longrightarrow> addFile fsys t p = Inr (t @ [entry_of fsys p])"
  by (auto simp: addable_def addFile_def putFile_def entry_of_def content_at_def
      split: if_splits option.splits node.splits bool.splits)

lemma addFile_not_addable:
  "\<not> addable fsys p \<Longrightarrow> addFile fsys t p = Inl (add_error fsys p)"
  by (auto simp: addable_def add_error_def addFile_def putFile_def
      split: if_splits option.splits node.splits bool.splits)

lemma add_error_std: "\<not> addable fsys p \<Longrightarrow> is_std_exception (add_error fsys p)"
  using addFile_not_addable[of fsys p "[]"] addFile_std by blast

lemma archive_loop_eq:
  "archive_loop fsys t out fl =
     (None, t @ map (entry_of fsys) (filter (addable fsys) fl),
      out @ map (\<lambda>p. archive_warning p (add_error fsys p)) (filter (\<lambda>p. \<not> addable fsys p) fl))"
proof (induction fl arbitrary: t out)
  case Nil
  show ?case by simp
next
  case (Cons f fl)
  show ?case
  proof (cases "addable fsys f")
    case True
    then show ?thesis by (simp add: addFile_addable Cons)
  next
    case False
    then show ?thesis by (simp add: addFile_not_addable add_error_std Cons)
  qed
qed

lemma filter_single_compl:
  assumes "filter (\<lambda>p. \<not> P p) xs = [f]"
  shows "filter P xs = filter (\<lambda>p. p \<noteq> f) xs"
proof (rule filter_cong[OF refl])
  fix x assume x: "x \<in> set xs"
  have "f \<in> set (filter (\<lambda>p. \<not> P p) xs)" using assms by simp
  then have "\<not> P f" by simp
  moreover have "\<not> P x \<Longrightarrow> x = f"
  proof -
    assume "\<not> P x"
    with x have "x \<in> set (filter (\<lambda>p. \<not> P p) xs)" by simp
    with assms show "x = f" by simp
  qed
  ultimately show "P x = (x \<noteq> f)" by blast
qed

section \<open>Enumeration\<close>






lemma addFiles_results:
  shows "addFiles fsys fl d = Inr res \<Longrightarrow>
         \<forall>p\<in>set res. p \<in> set fl \<or> (exists fsys p \<and> \<not> is_directory fsys p)"
    and "addFiles_loop fsys fl es = Inr res \<Longrightarrow>
         \<forall>p\<in>set res. p \<in> set fl \<or> (exists fsys p \<and> \<not> is_directory fsys p)"
proof (induction fsys fl d and fsys fl es arbitrary: res and res
    rule: addFiles_addFiles_loop.induct)
  case (1 fsys fileList directory)
  from 1(2) have ex: "exists fsys directory"
    by (auto simp: addFiles.simps split: if_splits)
  with 1(2) obtain dirIter where it: "directory_iterator fsys directory = Inr dirIter"
    and lp: "addFiles_loop fsys fileList dirIter = Inr res"
    by (auto simp: addFiles.simps split: sum.splits)
  from 1(1)[OF _ it lp] ex show ?case by simp
next
  case (2 fsys fileList)
  then show ?case by simp
next
  case (3 fsys fileList entry dirIter)
  show ?case
  proof (cases "exists fsys entry")
    case False
    with 3(4,5) show ?thesis by simp
  next
    case ex: True
    show ?thesis
    proof (cases "is_directory fsys entry")
      case False
      from 3(5) ex False have "addFiles_loop fsys (fileList @ [entry]) dirIter = Inr res" by simp
      from 3(3)[OF ex False this] ex False show ?thesis by auto
    next
      case True
      from 3(5) ex True obtain r1 where r1: "addFiles fsys fileList entry = Inr r1"
        and lp: "addFiles_loop fsys r1 dirIter = Inr res"
        by (auto split: sum.splits)
      from 3(1)[OF ex True r1] 3(2)[OF ex True r1 lp] show ?thesis by blast
    qed
  qed
qed

lemma addFiles_missing:
  "\<not> exists fsys d \<Longrightarrow> addFiles fsys fl d = Inl (missing_directory_error d)"
  by (simp add: addFiles.simps)

lemma addFiles_iterator_error:
  "exists fsys d \<Longrightarrow> directory_iterator fsys d = Inl e \<Longrightarrow> addFiles fsys fl d = Inl e"
  by (simp add: addFiles.simps)

lemma addFiles_Inr_exists:
  "addFiles fsys fl d = Inr r \<Longrightarrow> exists fsys d \<and> d \<noteq> []"
  using addFiles_missing[of fsys d fl] by (cases "exists fsys d") (auto simp: exists_def status_def)

lemma addFiles_missing_only_root:
  shows "addFiles fsys fl d = Inl (missing_directory_error d') \<Longrightarrow> \<not> exists fsys d"
    and "addFiles_loop fsys fl es = Inl (missing_directory_error d') \<Longrightarrow> False"
proof (induction fsys fl d and fsys fl es rule: addFiles_addFiles_loop.induct)
  case (1 fsys fileList directory)
  show ?case
  proof
    assume ex: "exists fsys directory"
    show False
    proof (cases "directory_iterator fsys directory")
      case (Inl e)
      with 1(2) ex have "e = missing_directory_error d'" by (simp add: addFiles.simps)
      with Inl show False
        by (auto simp: directory_iterator_def iterator_error_def missing_directory_error_def
            split: option.splits node.splits if_splits)
    next
      case (Inr dirIter)
      with 1(2) ex have "addFiles_loop fsys fileList dirIter = Inl (missing_directory_error d')"
        by (simp add: addFiles.simps)
      from 1(1)[OF _ Inr this] ex show False by simp
    qed
  qed
next
  case (2 fsys fileList)
  then show ?case by simp
next
  case (3 fsys fileList entry dirIter)
  show ?case
  proof (cases "exists fsys entry")
    case False
    with 3(4,5) show ?thesis by simp
  next
    case ex: True
    show ?thesis
    proof (cases "is_directory fsys entry")
      case False
      with 3(3,5) ex show ?thesis by simp
    next
      case True
      show ?thesis
      proof (cases "addFiles fsys fileList entry")
        case (Inl e)
        with 3(5) ex True have "addFiles fsys fileList entry = Inl (missing_directory_error d')"
          by simp
        from 3(1)[OF ex True this] ex show ?thesis by simp
      next
        case (Inr r1)
        with 3(5) ex True have "addFiles_loop fsys r1 dirIter = Inl (missing_directory_error d')"
          by simp
        from 3(2)[OF ex True Inr this] show ?thesis .
      qed
    qed
  qed
qed

lemma files_below_prefix: "f \<in> set (files_below p n) \<Longrightarrow> prefix p f"
proof (induction n arbitrary: p)
  case (Dir r w cs)
  from Dir.prems obtain nc where nc: "nc \<in> set cs"
    and f: "f \<in> set (files_below (p @ [fst nc]) (snd nc))" by auto
  have "snd nc \<in> Basic_BNFs.snds nc" by (cases nc) simp
  from Dir.IH[OF nc this f] show ?case by (rule append_prefixD)
qed simp_all


section \<open>Entry names\<close>







section \<open>close\<close>

lemma close_noop:
  "\<not> is_recording (spec this) \<or> is_closed this \<Longrightarrow> close this w = (None, this, w)"
  by (auto simp: close_def)

lemma write_recording_eq:
  "write_recording this w fl =
     (None,
      if can_open (fs w) (destination (spec this))
      then w\<lparr>fs := write_file (fs w) (destination (spec this)) (TarGz (archive_entries (fs w) fl)),
             cout := cout w @ archive_warnings (fs w) fl\<rparr>
      else w\<lparr>cout := cout w @ archive_warnings (fs w) fl
                 @ [destination_warning (destination (spec this))]\<rparr>)"
  by (simp add: write_recording_def archive_loop_eq archive_warnings_def archive_entries_def)

lemma close_run:
  assumes "is_recording (spec this)" and "\<not> is_closed this"
    and "addFiles (fs w) [] (temp_dir (spec this)) = Inr fl"
  shows "close this w = finish this (if fl = [] then w else snd (write_recording this w fl))"
  using assms by (simp add: close_def write_recording_eq finish_def split: prod.splits option.splits)

lemma finish_cases:
  obtains (returns) fsys' where "remove_all (fs w1) (temp_dir (spec this)) = (None, fsys')"
      "finish this w1 = (None, this\<lparr>is_closed := True\<rparr>, w1\<lparr>fs := fsys'\<rparr>)"
  | (throws) s fsys' where
      "remove_all (fs w1) (temp_dir (spec this)) = (Some (filesystem_error s), fsys')"
      "finish this w1 = (Some (filesystem_error s), this, w1\<lparr>fs := fsys'\<rparr>)"
proof (cases "remove_all (fs w1) (temp_dir (spec this))")
  case (Pair x fsys')
  show ?thesis
  proof (cases x)
    case None
    with Pair show ?thesis by (intro returns[of fsys']) (simp_all add: finish_def)
  next
    case (Some e)
    with Pair remove_at_filesystem_error[of "temp_dir (spec this)" "fs w1" "temp_dir (spec this)" e fsys']
    obtain s where "e = filesystem_error s" by (auto simp: remove_all_def)
    with Pair Some show ?thesis by (intro throws[of s fsys']) (simp_all add: finish_def)
  qed
qed

lemma finish_fields:
  "finish this w1 = (x, this', w') \<Longrightarrow>
   cout w' = cout w1 \<and> fs w' = snd (remove_all (fs w1) (temp_dir (spec this))) \<and>
   x = fst (remove_all (fs w1) (temp_dir (spec this))) \<and>
   this' = (if x = None then this\<lparr>is_closed := True\<rparr> else this)"
  by (auto simp: finish_def split: prod.splits option.splits)

lemma close_cases [consumes 2, case_names fails runs]:
  assumes "is_recording (spec this)" and "\<not> is_closed this"
  obtains (fails) e where "addFiles (fs w) [] (temp_dir (spec this)) = Inl e"
      "close this w = (Some e, this, w)"
  | (runs) fl where "addFiles (fs w) [] (temp_dir (spec this)) = Inr fl"
      "close this w = finish this (if fl = [] then w else snd (write_recording this w fl))"
proof (cases "addFiles (fs w) [] (temp_dir (spec this))")
  case (Inl e)
  with assms have "close this w = (Some e, this, w)" by (simp add: close_def)
  with Inl show ?thesis by (rule fails)
next
  case (Inr fl)
  from close_run[OF assms Inr] Inr show ?thesis by (intro runs[of fl])
qed

lemma close_returns_closed:
  assumes "close this w = (None, this', w')"
  shows "\<not> is_recording (spec this') \<or> is_closed this'"
proof (cases "\<not> is_recording (spec this) \<or> is_closed this")
  case True
  with assms close_noop[OF True, of w] show ?thesis by auto
next
  case False
  then have a: "is_recording (spec this)" "\<not> is_closed this" by simp_all
  from a show ?thesis
  proof (cases rule: close_cases[of this w])
    case (fails e)
    with assms show ?thesis by simp
  next
    case (runs fl)
    with assms have "finish this (if fl = [] then w else snd (write_recording this w fl))
        = (None, this', w')" by simp
    from finish_fields[OF this] show ?thesis by simp
  qed
qed

lemma close_writes:
  assumes "is_recording (spec this)" and "\<not> is_closed this"
    and "addFiles (fs w) [] (temp_dir (spec this)) = Inr fl" and "fl \<noteq> []"
    and "can_open (fs w) (destination (spec this))"
  shows "close this w =
     finish this
       (w\<lparr>fs := write_file (fs w) (destination (spec this)) (TarGz (archive_entries (fs w) fl)),
          cout := cout w @ archive_warnings (fs w) fl\<rparr>)"
  using close_run[OF assms(1,2,3)] assms(4,5) by (simp add: write_recording_eq)

lemma close_skips_write:
  assumes "is_recording (spec this)" and "\<not> is_closed this"
    and "addFiles (fs w) [] (temp_dir (spec this)) = Inr fl" and "fl \<noteq> []"
    and "\<not> can_open (fs w) (destination (spec this))"
  shows "close this w =
     finish this
       (w\<lparr>cout := cout w @ archive_warnings (fs w) fl
                   @ [destination_warning (destination (spec this))]\<rparr>)"
  using close_run[OF assms(1,2,3)] assms(4,5) by (simp add: write_recording_eq)

lemma close_written_status:
  assumes "is_recording (spec this)" and "\<not> is_closed this"
    and "addFiles (fs w) [] (temp_dir (spec this)) = Inr fl" and "fl \<noteq> []"
    and "can_open (fs w) (destination (spec this))"
    and "\<not> prefix (temp_dir (spec this)) (destination (spec this))"
    and "close this w = (x, this', w')"
  shows "status (fs w') (destination (spec this)) =
           Some (File True (TarGz (archive_entries (fs w) fl)))"
proof -
  define w1 where "w1 = w\<lparr>fs := write_file (fs w) (destination (spec this))
      (TarGz (archive_entries (fs w) fl)), cout := cout w @ archive_warnings (fs w) fl\<rparr>"
  from close_writes[OF assms(1-5)] assms(7) have "finish this w1 = (x, this', w')"
    by (simp add: w1_def)
  from finish_fields[OF this]
  have "fs w' = snd (remove_all (write_file (fs w) (destination (spec this))
                       (TarGz (archive_entries (fs w) fl))) (temp_dir (spec this)))"
    by (simp add: w1_def)
  with status_written[OF assms(5,6)] show ?thesis by simp
qed

section \<open>The claims\<close>

text \<open>
  C1. When \<^verbatim>\<open>close()\<close> returns on a recording session that was not closed, the temporary
  directory and everything below it no longer exist. Nothing is assumed about the files or
  the destination: the directory is removed also when files could not be archived or the
  destination could not be opened, which only print warnings.
\<close>

theorem close_removes_temp_dir:
  assumes "is_recording (spec this)" and "\<not> is_closed this"
    and "close this w = (None, this', w')"
  shows "\<forall>q. status (fs w') (temp_dir (spec this) @ q) = None \<and>
             \<not> exists (fs w') (temp_dir (spec this) @ q)"
  using assms(1,2)
proof (cases rule: close_cases[of this w])
  case (fails e)
  with assms(3) show ?thesis by simp
next
  case (runs fl)
  from addFiles_Inr_exists[OF runs(1)] have ne: "temp_dir (spec this) \<noteq> []" by simp
  define w1 where "w1 = (if fl = [] then w else snd (write_recording this w fl))"
  from runs(2) assms(3) have "finish this w1 = (None, this', w')" by (simp add: w1_def)
  from finish_fields[OF this]
  have "remove_all (fs w1) (temp_dir (spec this)) = (None, fs w')"
    by (metis prod.collapse)
  from remove_all_gone[OF this ne] show ?thesis by simp
qed

text \<open>
  C1 at \<open>record_B'\<close> in \<open>world_B\<close>: one file cannot be archived and the destination cannot be
  opened, both warnings are printed, and \<^verbatim>\<open>rec\<close> is gone.
\<close>

theorem close_removes_temp_dir_witness:
  "is_recording (spec record_B') \<and> \<not> is_closed record_B' \<and>
   close record_B' world_B =
     (None, record_B'\<lparr>is_closed := True\<rparr>,
      \<lparr>fs = Folder [],
       cout = [''[warning] Unable to archive rec/b.bin: Cannot open rec/b.bin'',
               ''[warning] Unable to write recording to output file out/r.tgz'']\<rparr>) \<and>
   \<not> exists (Folder []) [''rec''] \<and> \<not> exists (Folder []) [''rec'', ''a.txt'']"
proof -
  have h1: "is_recording (spec record_B')" by code_simp
  have h2: "\<not> is_closed record_B'" by code_simp
  have h3: "close record_B' world_B =
     (None, record_B'\<lparr>is_closed := True\<rparr>,
      \<lparr>fs = Folder [],
       cout = [''[warning] Unable to archive rec/b.bin: Cannot open rec/b.bin'',
               ''[warning] Unable to write recording to output file out/r.tgz'']\<rparr>)"
    by code_simp
  note r = close_removes_temp_dir[OF h1 h2 h3, rule_format]
  from r[of "[]"] r[of "[''a.txt'']"] show ?thesis using h1 h2 h3
    by (simp add: record_B'_def spec_B_def)
qed

text \<open>
  C2, as amended. On a session that is not recording or is closed already \<^verbatim>\<open>close()\<close>
  returns at once and changes nothing. So a second call after a first call that returned
  leaves the record and the world as the first call left them, and for a spec that is not
  recording the file system stays as it was: no destination is created and the temporary
  directory is not touched. Nothing is said about a second call after a first call that
  threw.
\<close>

theorem close_idempotent_after_return:
  "(\<not> is_recording (spec this) \<or> is_closed this \<longrightarrow> close this w = (None, this, w)) \<and>
   (close this w = (None, this', w') \<longrightarrow> close this' w' = (None, this', w')) \<and>
   (\<not> is_recording (spec this) \<longrightarrow> fs (snd (snd (close this w))) = fs w)"
proof (intro conjI impI)
  assume "\<not> is_recording (spec this) \<or> is_closed this"
  then show "close this w = (None, this, w)" by (rule close_noop)
next
  assume "close this w = (None, this', w')"
  from close_returns_closed[OF this] show "close this' w' = (None, this', w')"
    by (rule close_noop)
next
  assume "\<not> is_recording (spec this)"
  then show "fs (snd (snd (close this w))) = fs w" by (simp add: close_noop)
qed

text \<open>
  C2 as amended, at \<open>record_A\<close> in \<open>world_A\<close>, closed twice, and at a record with the
  default spec.
\<close>

theorem close_idempotent_after_return_witness:
  "close record_A world_A =
     (None, record_A\<lparr>is_closed := True\<rparr>,
      \<lparr>fs = Folder [(''.'', Folder [(''mission_records'', Folder []),
                 (''out.tar.gz'', File True (TarGz
                    [(''mission_records/u1/logs/commands.txt'', Raw ''move 1''),
                     (''mission_records/u1/video/frame001.png'', Raw ''PNG'')]))])],
       cout = []\<rparr>) \<and>
   close (record_A\<lparr>is_closed := True\<rparr>)
     \<lparr>fs = Folder [(''.'', Folder [(''mission_records'', Folder []),
                 (''out.tar.gz'', File True (TarGz
                    [(''mission_records/u1/logs/commands.txt'', Raw ''move 1''),
                     (''mission_records/u1/video/frame001.png'', Raw ''PNG'')]))])],
       cout = []\<rparr> =
     (None, record_A\<lparr>is_closed := True\<rparr>,
      \<lparr>fs = Folder [(''.'', Folder [(''mission_records'', Folder []),
                 (''out.tar.gz'', File True (TarGz
                    [(''mission_records/u1/logs/commands.txt'', Raw ''move 1''),
                     (''mission_records/u1/video/frame001.png'', Raw ''PNG'')]))])],
       cout = []\<rparr>) \<and>
   \<not> is_recording (spec \<lparr>is_closed = False, spec = default_MissionRecordSpec\<rparr>) \<and>
   close \<lparr>is_closed = False, spec = default_MissionRecordSpec\<rparr> world_A =
     (None, \<lparr>is_closed = False, spec = default_MissionRecordSpec\<rparr>, world_A)"
proof -
  have h1: "close record_A world_A =
     (None, record_A\<lparr>is_closed := True\<rparr>,
      \<lparr>fs = Folder [(''.'', Folder [(''mission_records'', Folder []),
                 (''out.tar.gz'', File True (TarGz
                    [(''mission_records/u1/logs/commands.txt'', Raw ''move 1''),
                     (''mission_records/u1/video/frame001.png'', Raw ''PNG'')]))])],
       cout = []\<rparr>)"
    by code_simp
  have h2: "\<not> is_recording (spec \<lparr>is_closed = False, spec = default_MissionRecordSpec\<rparr>)"
    by (simp add: default_MissionRecordSpec_def)
  from close_idempotent_after_return[of record_A world_A, THEN conjunct2, THEN conjunct1,
      rule_format, OF h1]
    close_idempotent_after_return[of "\<lparr>is_closed = False, spec = default_MissionRecordSpec\<rparr>"
      world_A, THEN conjunct1, rule_format, OF disjI1, OF h2]
    h1 h2
  show ?thesis by simp
qed

text \<open>
  C2 as stated fails at \<open>record_B\<close> in \<open>world_H\<close>, where the directory \<^verbatim>\<open>rec\<close> lists
  \<^verbatim>\<open>a.txt\<close> before \<^verbatim>\<open>sub\<close>. The first call writes the archive, removes
  \<^verbatim>\<open>rec/a.txt\<close> and throws from \<^verbatim>\<open>remove_all\<close> at \<^verbatim>\<open>rec/sub/b.bin\<close>, before \<^verbatim>\<open>is_closed\<close> is
  set. The second call runs again on what is left: it prints the warning a second time and
  overwrites \<^verbatim>\<open>r.tgz\<close> with an archive of no entries. Two calls do not leave what one call
  leaves.
\<close>

theorem second_close_differs_after_throw:
  "is_recording (spec record_B) \<and> \<not> is_closed record_B \<and>
   close record_B world_H =
     (Some (filesystem_error ''boost::filesystem::remove: rec/sub/b.bin''), record_B,
      \<lparr>fs = Folder [(''rec'', Folder [(''sub'',
                        Dir True False [(''b.bin'', File False (Raw ''secret''))])]),
                    (''r.tgz'', File True (TarGz [(''c/a.txt'', Raw ''hello'')]))],
       cout = [''[warning] Unable to archive rec/sub/b.bin: Cannot open rec/sub/b.bin'']\<rparr>) \<and>
   close record_B
     \<lparr>fs = Folder [(''rec'', Folder [(''sub'',
                        Dir True False [(''b.bin'', File False (Raw ''secret''))])]),
                    (''r.tgz'', File True (TarGz [(''c/a.txt'', Raw ''hello'')]))],
       cout = [''[warning] Unable to archive rec/sub/b.bin: Cannot open rec/sub/b.bin'']\<rparr> =
     (Some (filesystem_error ''boost::filesystem::remove: rec/sub/b.bin''), record_B,
      \<lparr>fs = Folder [(''rec'', Folder [(''sub'',
                        Dir True False [(''b.bin'', File False (Raw ''secret''))])]),
                    (''r.tgz'', File True (TarGz []))],
       cout = [''[warning] Unable to archive rec/sub/b.bin: Cannot open rec/sub/b.bin'',
               ''[warning] Unable to archive rec/sub/b.bin: Cannot open rec/sub/b.bin'']\<rparr>)"
  by code_simp




text \<open>
  C4, as amended. When the enumerated file list is not empty and every file fails to be
  added, \<^verbatim>\<open>close()\<close> still writes an archive, with no entries, to a destination that can be
  opened: it is what the destination holds afterwards, whether \<^verbatim>\<open>close()\<close> returns or throws
  from the removal (the destination lying outside the temporary directory). Nothing is
  written when the file list is empty: the world then changes only by what \<^verbatim>\<open>remove_all\<close>
  does to the temporary directory.
\<close>

theorem close_writes_empty_archive:
  assumes "is_recording (spec this)" and "\<not> is_closed this"
    and "addFiles (fs w) [] (temp_dir (spec this)) = Inr fileList"
  shows "(fileList \<noteq> [] \<and> (\<forall>f\<in>set fileList. \<not> addable (fs w) f) \<and>
          can_open (fs w) (destination (spec this)) \<and>
          \<not> prefix (temp_dir (spec this)) (destination (spec this)) \<longrightarrow>
            (\<exists>x this' w'. close this w = (x, this', w') \<and>
               status (fs w') (destination (spec this)) = Some (File True (TarGz [])))) \<and>
         (fileList = [] \<longrightarrow>
            (\<exists>x this'. close this w =
               (x, this', w\<lparr>fs := snd (remove_all (fs w) (temp_dir (spec this)))\<rparr>)))"
proof (intro conjI impI)
  assume a: "fileList \<noteq> [] \<and> (\<forall>f\<in>set fileList. \<not> addable (fs w) f) \<and>
          can_open (fs w) (destination (spec this)) \<and>
          \<not> prefix (temp_dir (spec this)) (destination (spec this))"
  then have "filter (addable (fs w)) fileList = []" by (simp add: filter_empty_conv)
  then have en: "archive_entries (fs w) fileList = []" by (simp add: archive_entries_def)
  from a have ne: "fileList \<noteq> []" and co: "can_open (fs w) (destination (spec this))"
    and np: "\<not> prefix (temp_dir (spec this)) (destination (spec this))" by simp_all
  obtain x this' w' where c: "close this w = (x, this', w')" by (cases "close this w")
  from close_written_status[OF assms ne co np c] en c
  show "\<exists>x this' w'. close this w = (x, this', w') \<and>
               status (fs w') (destination (spec this)) = Some (File True (TarGz []))"
    by simp
next
  assume e: "fileList = []"
  obtain x this' w' where c: "close this w = (x, this', w')" by (cases "close this w")
  with close_run[OF assms] e have "finish this w = (x, this', w')" by simp
  from finish_fields[OF this] have "w' = w\<lparr>fs := snd (remove_all (fs w) (temp_dir (spec this)))\<rparr>"
    by (cases w; cases w') simp
  with c show "\<exists>x this'. close this w =
               (x, this', w\<lparr>fs := snd (remove_all (fs w) (temp_dir (spec this)))\<rparr>)"
    by simp
qed

text \<open>
  C4 as amended, at \<open>record_B\<close>: in \<open>world_C\<close> the only file cannot be read and an empty
  archive is written; in \<open>world_G\<close> the directory is empty and nothing is written.
\<close>

theorem close_writes_empty_archive_witness:
  "is_recording (spec record_B) \<and> \<not> is_closed record_B \<and>
   addFiles (fs world_C) [] (temp_dir (spec record_B)) = Inr [[''rec'', ''b.bin'']] \<and>
   \<not> addable (fs world_C) [''rec'', ''b.bin''] \<and>
   can_open (fs world_C) (destination (spec record_B)) \<and>
   \<not> prefix (temp_dir (spec record_B)) (destination (spec record_B)) \<and>
   (\<exists>x this' w'. close record_B world_C = (x, this', w') \<and>
      status (fs w') (destination (spec record_B)) = Some (File True (TarGz []))) \<and>
   addFiles (fs world_G) [] (temp_dir (spec record_B)) = Inr [] \<and>
   (\<exists>x this'. close record_B world_G =
      (x, this', world_G\<lparr>fs := snd (remove_all (fs world_G) (temp_dir (spec record_B)))\<rparr>)) \<and>
   snd (remove_all (fs world_G) (temp_dir (spec record_B))) = Folder []"
proof -
  have h1: "is_recording (spec record_B)" by code_simp
  have h2: "\<not> is_closed record_B" by code_simp
  have h3: "addFiles (fs world_C) [] (temp_dir (spec record_B)) = Inr [[''rec'', ''b.bin'']]"
    by code_simp
  have h4: "\<not> addable (fs world_C) [''rec'', ''b.bin'']" by code_simp
  have h5: "can_open (fs world_C) (destination (spec record_B))" by code_simp
  have h6: "\<not> prefix (temp_dir (spec record_B)) (destination (spec record_B))" by code_simp
  from close_writes_empty_archive[OF h1 h2 h3, THEN conjunct1] h4 h5 h6
  have "\<exists>x this' w'. close record_B world_C = (x, this', w') \<and>
      status (fs w') (destination (spec record_B)) = Some (File True (TarGz []))"
    by simp
  moreover have g: "addFiles (fs world_G) [] (temp_dir (spec record_B)) = Inr []" by code_simp
  moreover have "\<exists>x this'. close record_B world_G =
      (x, this', world_G\<lparr>fs := snd (remove_all (fs world_G) (temp_dir (spec record_B)))\<rparr>)"
    using close_writes_empty_archive[OF h1 h2 g, THEN conjunct2] by simp
  moreover have "snd (remove_all (fs world_G) (temp_dir (spec record_B))) = Folder []"
    by code_simp
  ultimately show ?thesis using h1 h2 h3 h4 h5 h6 by simp
qed

text \<open>
  C4 as stated fails at \<open>record_B\<close> in \<open>world_C\<close>: the file list is \<^verbatim>\<open>rec/b.bin\<close> alone,
  adding it throws, and \<^verbatim>\<open>r.tgz\<close>, which did not exist, is written with an archive of no
  entries.
\<close>

theorem empty_archive_is_written:
  "is_recording (spec record_B) \<and> \<not> is_closed record_B \<and>
   addFiles (fs world_C) [] (temp_dir (spec record_B)) = Inr [[''rec'', ''b.bin'']] \<and>
   addFile (fs world_C) [] [''rec'', ''b.bin''] = Inl (runtime_error ''Cannot open rec/b.bin'') \<and>
   status (fs world_C) (destination (spec record_B)) = None \<and>
   close record_B world_C =
     (None, record_B\<lparr>is_closed := True\<rparr>,
      \<lparr>fs = Folder [(''r.tgz'', File True (TarGz []))],
       cout = [''[warning] Unable to archive rec/b.bin: Cannot open rec/b.bin'']\<rparr>) \<and>
   status (Folder [(''r.tgz'', File True (TarGz []))]) (destination (spec record_B)) =
     Some (File True (TarGz []))"
  by code_simp

text \<open>
  C5, as amended. When exactly one of the \<open>N\<close> enumerated files fails to be added, that
  failure raises nothing: the warning that names the path of the file is printed, the other
  files are processed, and the archive holds the entries of the other \<open>N - 1\<close> files; it is
  what the destination holds afterwards when the destination can be opened and lies outside
  the temporary directory. \<^verbatim>\<open>close()\<close> then raises exactly what \<^verbatim>\<open>remove_all\<close> raises on the
  temporary directory, and the record is closed when it returns.
\<close>

theorem close_tolerates_one_bad_file:
  assumes "is_recording (spec this)" and "\<not> is_closed this"
    and "addFiles (fs w) [] (temp_dir (spec this)) = Inr fileList"
    and "filter (\<lambda>p. \<not> addable (fs w) p) fileList = [f]"
  shows "\<exists>x this' w'. close this w = (x, this', w') \<and>
           (''[warning] Unable to archive '' @ path_string f @ '': ''
              @ what (add_error (fs w) f)) \<in> set (cout w') \<and>
           length (archive_entries (fs w) fileList) = length fileList - 1 \<and>
           archive_entries (fs w) fileList =
             map (entry_of (fs w)) (filter (\<lambda>p. p \<noteq> f) fileList) \<and>
           (can_open (fs w) (destination (spec this)) \<and>
            \<not> prefix (temp_dir (spec this)) (destination (spec this)) \<longrightarrow>
              status (fs w') (destination (spec this)) =
                Some (File True (TarGz (archive_entries (fs w) fileList)))) \<and>
           x = fst (remove_all
                 (if can_open (fs w) (destination (spec this))
                  then write_file (fs w) (destination (spec this))
                         (TarGz (archive_entries (fs w) fileList))
                  else fs w)
                 (temp_dir (spec this))) \<and>
           (x = None \<longrightarrow> is_closed this')"
proof -
  from assms(4) have ne: "fileList \<noteq> []" by auto
  have wn: "archive_warnings (fs w) fileList = [archive_warning f (add_error (fs w) f)]"
    by (simp add: archive_warnings_def assms(4))
  have "length (filter (addable (fs w)) fileList)
          + length (filter (\<lambda>p. \<not> addable (fs w) p) fileList) = length fileList"
    by (rule sum_length_filter_compl)
  then have len: "length (archive_entries (fs w) fileList) = length fileList - 1"
    by (simp add: archive_entries_def assms(4))
  have en: "archive_entries (fs w) fileList =
             map (entry_of (fs w)) (filter (\<lambda>p. p \<noteq> f) fileList)"
    by (simp add: archive_entries_def filter_single_compl[OF assms(4)])
  obtain x this' w' where c: "close this w = (x, this', w')" by (cases "close this w")
  show ?thesis
  proof (cases "can_open (fs w) (destination (spec this))")
    case True
    define w1 where "w1 = w\<lparr>fs := write_file (fs w) (destination (spec this))
      (TarGz (archive_entries (fs w) fileList)), cout := cout w @ archive_warnings (fs w) fileList\<rparr>"
    from close_writes[OF assms(1,2,3) ne True] c have "finish this w1 = (x, this', w')"
      by (simp add: w1_def)
    from finish_fields[OF this] wn
    have "archive_warning f (add_error (fs w) f) \<in> set (cout w')"
      and "x = fst (remove_all (write_file (fs w) (destination (spec this))
                 (TarGz (archive_entries (fs w) fileList))) (temp_dir (spec this)))"
      and "x = None \<longrightarrow> is_closed this'"
      by (simp_all add: w1_def)
    with c len en True close_written_status[OF assms(1,2,3) ne True _ c] show ?thesis
      by (simp add: archive_warning_def)
  next
    case False
    define w1 where "w1 = w\<lparr>cout := cout w @ archive_warnings (fs w) fileList
                   @ [destination_warning (destination (spec this))]\<rparr>"
    from close_skips_write[OF assms(1,2,3) ne False] c have "finish this w1 = (x, this', w')"
      by (simp add: w1_def)
    from finish_fields[OF this] wn
    have "archive_warning f (add_error (fs w) f) \<in> set (cout w')"
      and "x = fst (remove_all (fs w) (temp_dir (spec this)))"
      and "x = None \<longrightarrow> is_closed this'"
      by (simp_all add: w1_def)
    with c len en False show ?thesis
      by (simp add: archive_warning_def)
  qed
qed

text \<open>
  C5 as amended, at \<open>record_B\<close> in \<open>world_B\<close>: of \<^verbatim>\<open>rec/a.txt\<close> and \<^verbatim>\<open>rec/b.bin\<close> the second
  cannot be read; the warning names it, the archive holds the first, and \<^verbatim>\<open>close()\<close> returns.
\<close>

theorem close_tolerates_one_bad_file_witness:
  "is_recording (spec record_B) \<and> \<not> is_closed record_B \<and>
   addFiles (fs world_B) [] (temp_dir (spec record_B)) =
     Inr [[''rec'', ''a.txt''], [''rec'', ''b.bin'']] \<and>
   filter (\<lambda>p. \<not> addable (fs world_B) p) [[''rec'', ''a.txt''], [''rec'', ''b.bin'']] =
     [[''rec'', ''b.bin'']] \<and>
   can_open (fs world_B) (destination (spec record_B)) \<and>
   \<not> prefix (temp_dir (spec record_B)) (destination (spec record_B)) \<and>
   (\<exists>x this' w'. close record_B world_B = (x, this', w') \<and>
      ''[warning] Unable to archive rec/b.bin: Cannot open rec/b.bin'' \<in> set (cout w') \<and>
      status (fs w') [''r.tgz''] = Some (File True (TarGz [(''c/a.txt'', Raw ''hello'')])) \<and>
      x = None \<and> is_closed this')"
proof -
  have h1: "is_recording (spec record_B)" by code_simp
  have h2: "\<not> is_closed record_B" by code_simp
  have h3: "addFiles (fs world_B) [] (temp_dir (spec record_B)) =
     Inr [[''rec'', ''a.txt''], [''rec'', ''b.bin'']]" by code_simp
  have h4: "filter (\<lambda>p. \<not> addable (fs world_B) p) [[''rec'', ''a.txt''], [''rec'', ''b.bin'']] =
     [[''rec'', ''b.bin'']]" by code_simp
  have h5: "can_open (fs world_B) (destination (spec record_B))" by code_simp
  have h6: "\<not> prefix (temp_dir (spec record_B)) (destination (spec record_B))" by code_simp
  have d: "destination (spec record_B) = [''r.tgz'']" by code_simp
  have m: "''[warning] Unable to archive '' @ path_string [''rec'', ''b.bin''] @ '': ''
              @ what (add_error (fs world_B) [''rec'', ''b.bin'']) =
           ''[warning] Unable to archive rec/b.bin: Cannot open rec/b.bin''" by code_simp
  have e: "archive_entries (fs world_B) [[''rec'', ''a.txt''], [''rec'', ''b.bin'']] =
           [(''c/a.txt'', Raw ''hello'')]" by code_simp
  have r: "fst (remove_all
                 (if can_open (fs world_B) [''r.tgz'']
                  then write_file (fs world_B) [''r.tgz''] (TarGz [(''c/a.txt'', Raw ''hello'')])
                  else fs world_B)
                 (temp_dir (spec record_B))) = None" by code_simp
  from close_tolerates_one_bad_file[OF h1 h2 h3 h4, unfolded m e d r] h5 h6
  obtain x this' w' where c: "close record_B world_B = (x, this', w')"
    and 1: "''[warning] Unable to archive rec/b.bin: Cannot open rec/b.bin'' \<in> set (cout w')"
    and 2: "status (fs w') [''r.tgz''] = Some (File True (TarGz [(''c/a.txt'', Raw ''hello'')]))"
    and 3: "x = None" and 4: "x = None \<longrightarrow> is_closed this'"
    unfolding d by blast
  then have "\<exists>x this' w'. close record_B world_B = (x, this', w') \<and>
      ''[warning] Unable to archive rec/b.bin: Cannot open rec/b.bin'' \<in> set (cout w') \<and>
      status (fs w') [''r.tgz''] = Some (File True (TarGz [(''c/a.txt'', Raw ''hello'')])) \<and>
      x = None \<and> is_closed this'"
    by blast
  then show ?thesis using h1 h2 h3 h4 h5 h6 by simp
qed

text \<open>
  C5 as stated fails at \<open>record_B\<close> in \<open>world_H\<close>: of the two files exactly
  \<^verbatim>\<open>rec/sub/b.bin\<close> fails to be added, the warning is printed and the archive of one entry
  is written, and then \<^verbatim>\<open>close()\<close> raises: \<^verbatim>\<open>remove_all\<close> cannot remove the file from \<^verbatim>\<open>sub\<close>.
\<close>

theorem close_raises_after_bad_file:
  "is_recording (spec record_B) \<and> \<not> is_closed record_B \<and>
   addFiles (fs world_H) [] (temp_dir (spec record_B)) =
     Inr [[''rec'', ''a.txt''], [''rec'', ''sub'', ''b.bin'']] \<and>
   addable (fs world_H) [''rec'', ''a.txt''] \<and>
   \<not> addable (fs world_H) [''rec'', ''sub'', ''b.bin''] \<and>
   close record_B world_H =
     (Some (filesystem_error ''boost::filesystem::remove: rec/sub/b.bin''), record_B,
      \<lparr>fs = Folder [(''rec'', Folder [(''sub'',
                        Dir True False [(''b.bin'', File False (Raw ''secret''))])]),
                    (''r.tgz'', File True (TarGz [(''c/a.txt'', Raw ''hello'')]))],
       cout = [''[warning] Unable to archive rec/sub/b.bin: Cannot open rec/sub/b.bin'']\<rparr>)"
  by code_simp

text \<open>
  C6. The destructor calls \<^verbatim>\<open>close()\<close> on a record that is not closed and passes its outcome
  through the handlers; on a closed record it does nothing. The handlers turn every
  exception, whatever its kind and whatever the state it left, into a normal return with one
  more line printed, so the destructor never throws.
\<close>

theorem destructor_swallows:
  "(\<not> is_closed this \<longrightarrow> destructor this w = destructor_catch (close this w)) \<and>
   (is_closed this \<longrightarrow> destructor this w = (None, this, w)) \<and>
   fst (destructor this w) = None \<and>
   destructor_catch (Some e, this', w') =
     (None, this',
      w'\<lparr>cout := cout w' @
         [if is_std_exception e then ''Exception in closing of MissionRecord: '' @ what e
          else ''Unknown exception in closing of MissionRecord.'']\<rparr>)"
  by (auto simp: destructor_def destructor_catch_def split: prod.splits option.splits)

text \<open>
  C6 at \<open>record_B\<close> in \<open>world_D\<close>, where \<^verbatim>\<open>close()\<close> throws a \<^verbatim>\<open>filesystem_error\<close>; at an
  exception that is not a \<^verbatim>\<open>std::exception\<close>; and at a closed record.
\<close>

theorem destructor_swallows_witness:
  "\<not> is_closed record_B \<and>
   close record_B world_D =
     (Some (filesystem_error ''boost::filesystem::directory_iterator::construct: rec''),
      record_B, world_D) \<and>
   destructor record_B world_D =
     (None, record_B,
      world_D\<lparr>cout := [''Exception in closing of MissionRecord: boost::filesystem::directory_iterator::construct: rec'']\<rparr>) \<and>
   destructor_catch (Some unknown_exception, record_B, world_D) =
     (None, record_B, world_D\<lparr>cout := [''Unknown exception in closing of MissionRecord.'']\<rparr>) \<and>
   is_closed (record_B\<lparr>is_closed := True\<rparr>) \<and>
   destructor (record_B\<lparr>is_closed := True\<rparr>) world_B = (None, record_B\<lparr>is_closed := True\<rparr>, world_B)"
proof -
  have h1: "\<not> is_closed record_B" by code_simp
  have h2: "close record_B world_D =
     (Some (filesystem_error ''boost::filesystem::directory_iterator::construct: rec''),
      record_B, world_D)" by code_simp
  have h3: "is_closed (record_B\<lparr>is_closed := True\<rparr>)" by simp
  have h4: "destructor_catch (Some unknown_exception, record_B, world_D) =
     (None, record_B, world_D\<lparr>cout := [''Unknown exception in closing of MissionRecord.'']\<rparr>)"
    by (simp add: destructor_catch_def world_D_def)
  note t = destructor_swallows[of record_B world_D, THEN conjunct1, rule_format, OF h1]
  note u = destructor_swallows[of "record_B\<lparr>is_closed := True\<rparr>" world_B,
      THEN conjunct2, THEN conjunct1, rule_format, OF h3]
  from t u h1 h2 h3 h4 show ?thesis
    by (simp add: destructor_catch_def world_D_def)
qed

text \<open>
  C7. Moving the record at \<open>record\<close> into a different object \<open>this\<close>, by the move
  constructor or by move assignment, leaves \<open>this\<close> with the spec and the closed flag of
  \<open>record\<close> and leaves \<open>record\<close> with the default spec, which is not recording. The
  destructor of the source then returns with the world unchanged, and the destructor of the
  target does what the destructor of the source would have done before the move. Move
  assignment of an object to itself changes nothing.
\<close>

theorem move_transfers_ownership:
  assumes "this \<noteq> record"
  shows "move_assign h this record this = h record \<and>
         move_construct h this record this = h record \<and>
         move_assign h this record record = (h record)\<lparr>spec := default_MissionRecordSpec\<rparr> \<and>
         move_construct h this record record = (h record)\<lparr>spec := default_MissionRecordSpec\<rparr> \<and>
         \<not> is_recording (spec (move_assign h this record record)) \<and>
         close (move_assign h this record record) w = (None, move_assign h this record record, w) \<and>
         destructor (move_assign h this record record) w =
           (None, move_assign h this record record, w) \<and>
         destructor (move_construct h this record record) w =
           (None, move_construct h this record record, w) \<and>
         destructor (move_assign h this record this) w = destructor (h record) w \<and>
         destructor (move_construct h this record this) w = destructor (h record) w \<and>
         move_assign h record record = h"
proof -
  have nr: "\<not> is_recording (spec ((h record)\<lparr>spec := default_MissionRecordSpec\<rparr>))"
    by (simp add: default_MissionRecordSpec_def)
  have a1: "move_assign h this record this = h record"
    using assms by (simp add: move_assign_def Let_def)
  have a2: "move_assign h this record record = (h record)\<lparr>spec := default_MissionRecordSpec\<rparr>"
    using assms by (simp add: move_assign_def Let_def)
  have c1: "move_construct h this record this = h record"
    using assms by (simp add: move_construct_def Let_def)
  have c2: "move_construct h this record record = (h record)\<lparr>spec := default_MissionRecordSpec\<rparr>"
    using assms by (simp add: move_construct_def Let_def)
  have cl: "close ((h record)\<lparr>spec := default_MissionRecordSpec\<rparr>) w =
              (None, (h record)\<lparr>spec := default_MissionRecordSpec\<rparr>, w)"
    using nr by (simp add: close_noop)
  have d: "destructor ((h record)\<lparr>spec := default_MissionRecordSpec\<rparr>) w =
             (None, (h record)\<lparr>spec := default_MissionRecordSpec\<rparr>, w)"
    using cl by (simp add: destructor_def destructor_catch_def)
  have s: "move_assign h record record = h" by (simp add: move_assign_def)
  show ?thesis
    unfolding a1 a2 c1 c2 using nr cl d s by simp
qed

text \<open>C7 at \<open>store_AB\<close>: \<open>record_A\<close> at address 0 is moved into address 1.\<close>

theorem move_transfers_ownership_witness:
  "(1::nat) \<noteq> 0 \<and>
   move_assign store_AB 1 0 1 = record_A \<and>
   move_assign store_AB 1 0 0 = \<lparr>is_closed = False, spec = default_MissionRecordSpec\<rparr> \<and>
   destructor (move_assign store_AB 1 0 0) world_A =
     (None, \<lparr>is_closed = False, spec = default_MissionRecordSpec\<rparr>, world_A) \<and>
   destructor (move_assign store_AB 1 0 1) world_A = destructor record_A world_A \<and>
   move_assign store_AB 0 0 = store_AB"
proof -
  have h: "(1::nat) \<noteq> 0" by simp
  have a: "store_AB 0 = record_A" by (simp add: store_AB_def)
  have r: "record_A\<lparr>spec := default_MissionRecordSpec\<rparr> =
             \<lparr>is_closed = False, spec = default_MissionRecordSpec\<rparr>"
    by (simp add: record_A_def)
  note t = move_transfers_ownership[OF h, of store_AB world_A]
  from t have "move_assign store_AB 1 0 1 = store_AB 0" by blast
  then have 1: "move_assign store_AB 1 0 1 = record_A" using a by simp
  from t have "move_assign store_AB 1 0 0 = (store_AB 0)\<lparr>spec := default_MissionRecordSpec\<rparr>"
    by blast
  then have 2: "move_assign store_AB 1 0 0 =
      \<lparr>is_closed = False, spec = default_MissionRecordSpec\<rparr>"
    using a r by simp
  from t have 3: "destructor (move_assign store_AB 1 0 0) world_A =
      (None, move_assign store_AB 1 0 0, world_A)" by blast
  from t have "destructor (move_assign store_AB 1 0 1) world_A = destructor (store_AB 0) world_A"
    by blast
  then have 4: "destructor (move_assign store_AB 1 0 1) world_A = destructor record_A world_A"
    using a by simp
  from t have 5: "move_assign store_AB 0 0 = store_AB" by blast
  show ?thesis using h 1 3 4 5 unfolding 2 by simp
qed

text \<open>
  C8, as amended. When the file list is not empty and the destination cannot be opened,
  the archive block raises nothing: it prints the warning about the destination as its last
  line and writes nothing. \<^verbatim>\<open>close()\<close> goes on to \<^verbatim>\<open>remove_all\<close> on the temporary directory
  in the unchanged file system. When the removal returns, \<^verbatim>\<open>close()\<close> returns, the record is
  closed and the temporary directory no longer exists; when the removal throws, the
  exception leaves \<^verbatim>\<open>close()\<close> and the record stays open.
\<close>

theorem close_destination_unwritable:
  assumes "is_recording (spec this)" and "\<not> is_closed this"
    and "addFiles (fs w) [] (temp_dir (spec this)) = Inr fileList"
    and "fileList \<noteq> []"
    and "\<not> can_open (fs w) (destination (spec this))"
  shows "write_recording this w fileList =
           (None, w\<lparr>cout := cout w @ archive_warnings (fs w) fileList
                        @ [''[warning] Unable to write recording to output file ''
                             @ path_string (destination (spec this))]\<rparr>) \<and>
         close this w =
           (case remove_all (fs w) (temp_dir (spec this)) of
              (None, fsys') \<Rightarrow>
                (None, this\<lparr>is_closed := True\<rparr>,
                 w\<lparr>fs := fsys',
                   cout := cout w @ archive_warnings (fs w) fileList
                        @ [''[warning] Unable to write recording to output file ''
                             @ path_string (destination (spec this))]\<rparr>)
            | (Some e, fsys') \<Rightarrow>
                (Some e, this,
                 w\<lparr>fs := fsys',
                   cout := cout w @ archive_warnings (fs w) fileList
                        @ [''[warning] Unable to write recording to output file ''
                             @ path_string (destination (spec this))]\<rparr>)) \<and>
         (\<forall>fsys'. remove_all (fs w) (temp_dir (spec this)) = (None, fsys') \<longrightarrow>
            \<not> exists fsys' (temp_dir (spec this)))"
proof (intro conjI allI impI)
  show "write_recording this w fileList =
           (None, w\<lparr>cout := cout w @ archive_warnings (fs w) fileList
                        @ [''[warning] Unable to write recording to output file ''
                             @ path_string (destination (spec this))]\<rparr>)"
    using assms(5) by (simp add: write_recording_eq destination_warning_def)
next
  show "close this w =
           (case remove_all (fs w) (temp_dir (spec this)) of
              (None, fsys') \<Rightarrow>
                (None, this\<lparr>is_closed := True\<rparr>,
                 w\<lparr>fs := fsys',
                   cout := cout w @ archive_warnings (fs w) fileList
                        @ [''[warning] Unable to write recording to output file ''
                             @ path_string (destination (spec this))]\<rparr>)
            | (Some e, fsys') \<Rightarrow>
                (Some e, this,
                 w\<lparr>fs := fsys',
                   cout := cout w @ archive_warnings (fs w) fileList
                        @ [''[warning] Unable to write recording to output file ''
                             @ path_string (destination (spec this))]\<rparr>))"
    using close_skips_write[OF assms]
    by (simp add: finish_def destination_warning_def split: prod.splits option.splits)
next
  fix fsys'
  assume r: "remove_all (fs w) (temp_dir (spec this)) = (None, fsys')"
  from addFiles_Inr_exists[OF assms(3)] have ne: "temp_dir (spec this) \<noteq> []" by simp
  from remove_all_gone[OF r ne, of "[]"] show "\<not> exists fsys' (temp_dir (spec this))" by simp
qed

text \<open>
  C8 as amended, at \<open>record_B'\<close> in \<open>world_B\<close>: there is no directory \<^verbatim>\<open>out\<close> for
  \<^verbatim>\<open>out/r.tgz\<close>, and the removal of \<^verbatim>\<open>rec\<close> returns.
\<close>

theorem close_destination_unwritable_witness:
  "is_recording (spec record_B') \<and> \<not> is_closed record_B' \<and>
   addFiles (fs world_B) [] (temp_dir (spec record_B')) =
     Inr [[''rec'', ''a.txt''], [''rec'', ''b.bin'']] \<and>
   \<not> can_open (fs world_B) (destination (spec record_B')) \<and>
   remove_all (fs world_B) (temp_dir (spec record_B')) = (None, Folder []) \<and>
   close record_B' world_B =
     (None, record_B'\<lparr>is_closed := True\<rparr>,
      \<lparr>fs = Folder [],
       cout = [''[warning] Unable to archive rec/b.bin: Cannot open rec/b.bin'',
               ''[warning] Unable to write recording to output file out/r.tgz'']\<rparr>) \<and>
   \<not> exists (Folder []) (temp_dir (spec record_B'))"
proof -
  have h1: "is_recording (spec record_B')" by code_simp
  have h2: "\<not> is_closed record_B'" by code_simp
  have h3: "addFiles (fs world_B) [] (temp_dir (spec record_B')) =
     Inr [[''rec'', ''a.txt''], [''rec'', ''b.bin'']]" by code_simp
  have h4: "[[''rec'', ''a.txt''], [''rec'', ''b.bin'']] \<noteq> ([] :: path list)" by simp
  have h5: "\<not> can_open (fs world_B) (destination (spec record_B'))" by code_simp
  have r: "remove_all (fs world_B) (temp_dir (spec record_B')) = (None, Folder [])" by code_simp
  have e: "close record_B' world_B =
     (None, record_B'\<lparr>is_closed := True\<rparr>,
      \<lparr>fs = Folder [],
       cout = [''[warning] Unable to archive rec/b.bin: Cannot open rec/b.bin'',
               ''[warning] Unable to write recording to output file out/r.tgz'']\<rparr>)"
    by code_simp
  from close_destination_unwritable[OF h1 h2 h3 h4 h5] r
  have "\<not> exists (Folder []) (temp_dir (spec record_B'))" by blast
  with h1 h2 h3 h5 r e show ?thesis by simp
qed

text \<open>
  C8 as stated fails at \<open>record_J\<close> in \<open>world_J\<close>: the empty destination cannot be opened
  and the warning is printed, but the temporary directory is \<^verbatim>\<open>.\<close>, which \<^verbatim>\<open>remove_all\<close>
  empties and then cannot remove. \<^verbatim>\<open>close()\<close> raises, the record is not closed and the
  temporary directory still exists.
\<close>

theorem close_raises_after_unwritable_destination:
  "is_recording (spec record_J) \<and> \<not> is_closed record_J \<and>
   temp_dir (spec record_J) = [''.''] \<and> destination (spec record_J) = [] \<and>
   addFiles (fs world_J) [] (temp_dir (spec record_J)) = Inr [[''.'', ''a.txt'']] \<and>
   \<not> can_open (fs world_J) (destination (spec record_J)) \<and>
   close record_J world_J =
     (Some (filesystem_error ''boost::filesystem::remove: .''), record_J,
      \<lparr>fs = Folder [(''.'', Folder [])],
       cout = [''[warning] Unable to write recording to output file '']\<rparr>) \<and>
   \<not> is_closed (fst (snd (close record_J world_J))) \<and>
   exists (fs (snd (snd (close record_J world_J)))) (temp_dir (spec record_J))"
  by code_simp

text \<open>
  C9, as amended. \<^verbatim>\<open>close()\<close> on a recording, open session whose temporary directory does
  not exist throws the \<^verbatim>\<open>runtime_error\<close> of \<^verbatim>\<open>addFiles\<close>, which reaches the caller.
  \<^verbatim>\<open>addFiles\<close> fails with that error when its root does not exist, and it fails as well when
  the directory iterator cannot be constructed on a root that exists, or when its call on a
  directory below fails: the exception is passed on. An entry that does not exist when the
  loop visits it is skipped, and every path that \<^verbatim>\<open>addFiles\<close> adds named an existing entry
  that is not a directory.
\<close>

theorem close_missing_temp_dir:
  "(is_recording (spec this) \<and> \<not> is_closed this \<and> \<not> exists (fs w) (temp_dir (spec this)) \<longrightarrow>
      close this w =
        (Some (runtime_error (''Attempt to write to non-existent directory: ''
                 @ path_string (temp_dir (spec this)))), this, w)) \<and>
   (\<not> exists fsys directory \<longrightarrow>
      addFiles fsys fileList directory =
        Inl (runtime_error (''Attempt to write to non-existent directory: ''
               @ path_string directory))) \<and>
   (exists fsys directory \<and> directory_iterator fsys directory = Inl e \<longrightarrow>
      addFiles fsys fileList directory = Inl e) \<and>
   (exists fsys entry \<and> is_directory fsys entry \<and> addFiles fsys fileList entry = Inl e \<longrightarrow>
      addFiles_loop fsys fileList (entry # dirIter) = Inl e) \<and>
   (\<not> exists fsys entry \<longrightarrow>
      addFiles_loop fsys fileList (entry # dirIter) = addFiles_loop fsys fileList dirIter) \<and>
   (addFiles fsys fileList directory = Inr res \<longrightarrow>
      (\<forall>p\<in>set res. p \<in> set fileList \<or> (exists fsys p \<and> \<not> is_directory fsys p)))"
proof (intro conjI impI)
  assume "is_recording (spec this) \<and> \<not> is_closed this \<and> \<not> exists (fs w) (temp_dir (spec this))"
  then show "close this w =
        (Some (runtime_error (''Attempt to write to non-existent directory: ''
                 @ path_string (temp_dir (spec this)))), this, w)"
    by (simp add: close_def addFiles_missing missing_directory_error_def)
next
  assume "\<not> exists fsys directory"
  then show "addFiles fsys fileList directory =
        Inl (runtime_error (''Attempt to write to non-existent directory: ''
               @ path_string directory))"
    by (simp add: addFiles_missing missing_directory_error_def)
next
  assume "exists fsys directory \<and> directory_iterator fsys directory = Inl e"
  then show "addFiles fsys fileList directory = Inl e"
    by (simp add: addFiles_iterator_error)
next
  assume "exists fsys entry \<and> is_directory fsys entry \<and> addFiles fsys fileList entry = Inl e"
  then show "addFiles_loop fsys fileList (entry # dirIter) = Inl e" by simp
next
  assume "\<not> exists fsys entry"
  then show "addFiles_loop fsys fileList (entry # dirIter) = addFiles_loop fsys fileList dirIter"
    by simp
next
  assume "addFiles fsys fileList directory = Inr res"
  from addFiles_results(1)[OF this]
  show "\<forall>p\<in>set res. p \<in> set fileList \<or> (exists fsys p \<and> \<not> is_directory fsys p)" .
qed

text \<open>
  C9 as amended: \<open>record_B\<close> in \<open>world_E\<close>, where \<^verbatim>\<open>rec\<close> is missing; the directory
  \<^verbatim>\<open>rec/sub\<close> of \<open>world_I\<close>, which exists and cannot be listed; and the vanished entry
  \<^verbatim>\<open>rec/g\<close> of \<open>world_B\<close>, which is skipped.
\<close>

theorem close_missing_temp_dir_witness:
  "is_recording (spec record_B) \<and> \<not> is_closed record_B \<and>
   \<not> exists (fs world_E) (temp_dir (spec record_B)) \<and>
   close record_B world_E =
     (Some (runtime_error ''Attempt to write to non-existent directory: rec''),
      record_B, world_E) \<and>
   exists (fs world_I) [''rec'', ''sub''] \<and> is_directory (fs world_I) [''rec'', ''sub''] \<and>
   directory_iterator (fs world_I) [''rec'', ''sub''] =
     Inl (filesystem_error ''boost::filesystem::directory_iterator::construct: rec/sub'') \<and>
   addFiles (fs world_I) [[''rec'', ''a.txt'']] [''rec'', ''sub''] =
     Inl (filesystem_error ''boost::filesystem::directory_iterator::construct: rec/sub'') \<and>
   addFiles_loop (fs world_I) [[''rec'', ''a.txt'']] [[''rec'', ''sub'']] =
     Inl (filesystem_error ''boost::filesystem::directory_iterator::construct: rec/sub'') \<and>
   status (fs world_B) [''rec'', ''g''] = Some Gone \<and>
   \<not> exists (fs world_B) [''rec'', ''g''] \<and>
   addFiles_loop (fs world_B) [] [[''rec'', ''g'']] = Inr [] \<and>
   addFiles (fs world_B) [] [''rec''] = Inr [[''rec'', ''a.txt''], [''rec'', ''b.bin'']] \<and>
   exists (fs world_B) [''rec'', ''a.txt''] \<and> \<not> is_directory (fs world_B) [''rec'', ''a.txt'']"
proof -
  have h1: "is_recording (spec record_B) \<and> \<not> is_closed record_B \<and>
            \<not> exists (fs world_E) (temp_dir (spec record_B))" by code_simp
  have h2: "addFiles (fs world_B) [] [''rec''] = Inr [[''rec'', ''a.txt''], [''rec'', ''b.bin'']]"
    by code_simp
  have h3: "status (fs world_B) [''rec'', ''g''] = Some Gone \<and>
            \<not> exists (fs world_B) [''rec'', ''g'']" by code_simp
  have h4: "exists (fs world_I) [''rec'', ''sub''] \<and> is_directory (fs world_I) [''rec'', ''sub'']"
    by code_simp
  have h5: "directory_iterator (fs world_I) [''rec'', ''sub''] =
     Inl (filesystem_error ''boost::filesystem::directory_iterator::construct: rec/sub'')"
    by code_simp
  have p: "path_string (temp_dir (spec record_B)) = ''rec''" by code_simp
  note t1 = close_missing_temp_dir[of record_B world_E "fs world_B" "[''rec'']" "[]" _
      "[''rec'', ''g'']" "[]" "[[''rec'', ''a.txt''], [''rec'', ''b.bin'']]"]
  note t2 = close_missing_temp_dir[of record_B world_E "fs world_I" "[''rec'', ''sub'']"
      "[[''rec'', ''a.txt'']]"
      "filesystem_error ''boost::filesystem::directory_iterator::construct: rec/sub''"
      "[''rec'', ''sub'']" "[]" "[]"]
  from t1 h1 have c: "close record_B world_E =
     (Some (runtime_error ''Attempt to write to non-existent directory: rec''),
      record_B, world_E)" unfolding p by simp
  from t2 h4 h5 have i: "addFiles (fs world_I) [[''rec'', ''a.txt'']] [''rec'', ''sub''] =
     Inl (filesystem_error ''boost::filesystem::directory_iterator::construct: rec/sub'')"
    by blast
  from t2 h4 i have l: "addFiles_loop (fs world_I) [[''rec'', ''a.txt'']] [[''rec'', ''sub'']] =
     Inl (filesystem_error ''boost::filesystem::directory_iterator::construct: rec/sub'')"
    by blast
  from t1 h3 have "addFiles_loop (fs world_B) [] [[''rec'', ''g'']] = addFiles_loop (fs world_B) [] []"
    by blast
  then have g: "addFiles_loop (fs world_B) [] [[''rec'', ''g'']] = Inr []" by simp
  from t1 h2 have "\<forall>p\<in>set [[''rec'', ''a.txt''], [''rec'', ''b.bin'']].
      p \<in> set [] \<or> (exists (fs world_B) p \<and> \<not> is_directory (fs world_B) p)" by blast
  then have "exists (fs world_B) [''rec'', ''a.txt''] \<and> \<not> is_directory (fs world_B) [''rec'', ''a.txt'']"
    by simp
  with h1 h2 h3 h4 h5 c i l g show ?thesis by simp
qed

text \<open>
  C9 as stated fails at \<open>record_B\<close> in \<open>world_D\<close>: \<^verbatim>\<open>rec\<close> exists, as a regular file, and
  the enumeration fails with the \<^verbatim>\<open>filesystem_error\<close> of the directory iterator.
\<close>

theorem enumeration_fails_on_existing_file:
  "is_recording (spec record_B) \<and> \<not> is_closed record_B \<and>
   temp_dir (spec record_B) = [''rec''] \<and>
   status (fs world_D) [''rec''] = Some (File True (Raw ''x'')) \<and>
   exists (fs world_D) [''rec''] \<and>
   addFiles (fs world_D) [] [''rec''] =
     Inl (filesystem_error ''boost::filesystem::directory_iterator::construct: rec'') \<and>
   close record_B world_D =
     (Some (filesystem_error ''boost::filesystem::directory_iterator::construct: rec''),
      record_B, world_D)"
  by code_simp

text \<open>
  C10. When \<^verbatim>\<open>close()\<close> leaves by the missing-directory error, the record and the world are
  as before the call: the record is still not closed, nothing was removed, and calling
  \<^verbatim>\<open>close()\<close> again runs the same operation from the start.
\<close>

theorem close_missing_directory_unchanged:
  assumes "close this w = (Some (missing_directory_error d), this', w')"
  shows "this' = this \<and> w' = w \<and> \<not> is_closed this' \<and> fs w' = fs w \<and>
         close this' w' = (Some (missing_directory_error d), this, w)"
proof -
  from assms have a: "is_recording (spec this)" "\<not> is_closed this"
    by (auto simp: close_def split: if_splits)
  from a have "this' = this \<and> w' = w"
  proof (cases rule: close_cases[of this w])
    case (fails e)
    with assms show ?thesis by simp
  next
    case (runs fl)
    define w1 where "w1 = (if fl = [] then w else snd (write_recording this w fl))"
    from runs(2) assms have f: "finish this w1 = (Some (missing_directory_error d), this', w')"
      by (simp add: w1_def)
    show ?thesis
    proof (cases rule: finish_cases[of w1 this])
      case (returns fsys')
      with f show ?thesis by simp
    next
      case (throws s fsys')
      with f show ?thesis by (simp add: missing_directory_error_def)
    qed
  qed
  with a assms show ?thesis by simp
qed

text \<open>C10 at \<open>record_B\<close> in \<open>world_E\<close>, where \<^verbatim>\<open>rec\<close> is missing.\<close>

theorem close_missing_directory_unchanged_witness:
  "close record_B world_E = (Some (missing_directory_error [''rec'']), record_B, world_E) \<and>
   \<not> is_closed record_B"
proof -
  have h: "close record_B world_E = (Some (missing_directory_error [''rec'']), record_B, world_E)"
    by code_simp
  from close_missing_directory_unchanged[OF h] h show ?thesis by simp
qed

end
